theory Spec2Isabelle
  imports Complex_Main "HOL-Library.Sublist" "HOL-Library.Word"
begin

section \<open>Python strings\<close>

text \<open>
  A Python \<open>str\<close> is a sequence of Unicode code points. It is modelled as a list of
  natural numbers, one per code point, so that \<open>length\<close> counts what Python's \<open>len\<close>
  counts and text outside ASCII (the schema has a \<open>name_nepali\<close> field) is in the model.
  \<open>ascii\<close> turns an ASCII literal into its code points.
\<close>

type_synonym pystr = "nat list"

definition ascii :: "string \<Rightarrow> pystr" where
  "ascii s = map of_char s"

text \<open>\<open>sub in s\<close>: substring test.\<close>

fun contains :: "'a list \<Rightarrow> 'a list \<Rightarrow> bool" where
  "contains sub [] = (sub = [])"
| "contains sub (x # xs) = (prefix sub (x # xs) \<or> contains sub xs)"

text \<open>
  \<open>s.split(sep)\<close> for a non-empty separator: the pieces between the occurrences of
  \<open>sep\<close>, found from left to right without overlap. \<open>split_scan sep acc s\<close> carries
  the piece read so far in \<open>acc\<close>. Python raises \<open>ValueError\<close> on an empty separator; the
  source only splits on literals, and the scan treats an empty separator as one that
  never matches.
\<close>

function split_scan :: "'a list \<Rightarrow> 'a list \<Rightarrow> 'a list \<Rightarrow> 'a list list" where
  "split_scan sep acc [] = [acc]"
| "split_scan sep acc (x # xs) =
     (if sep \<noteq> [] \<and> prefix sep (x # xs)
      then acc # split_scan sep [] (drop (length sep) (x # xs))
      else split_scan sep (acc @ [x]) xs)"
  by pat_completeness auto
termination
  by (relation "measure (\<lambda>(sep, acc, s). length s)") auto

definition split_py :: "'a list \<Rightarrow> 'a list \<Rightarrow> 'a list list" where
  "split_py sep s = split_scan sep [] s"

text \<open>
  \<open>s.replace(old, new)\<close> for a non-empty \<open>old\<close>: every occurrence, from left to right
  without overlap, is replaced.
\<close>

function replace_py :: "'a list \<Rightarrow> 'a list \<Rightarrow> 'a list \<Rightarrow> 'a list" where
  "replace_py old new [] = []"
| "replace_py old new (x # xs) =
     (if old \<noteq> [] \<and> prefix old (x # xs)
      then new @ replace_py old new (drop (length old) (x # xs))
      else x # replace_py old new xs)"
  by pat_completeness auto
termination
  by (relation "measure (\<lambda>(old, new, s). length s)") auto

text \<open>
  \<open>s.strip()\<close> removes leading and trailing whitespace; \<open>isspace\<close> is the set of code
  points that CPython's \<open>str.strip\<close> treats as whitespace.
\<close>

definition isspace :: "nat \<Rightarrow> bool" where
  "isspace c = ((9 \<le> c \<and> c \<le> 13) \<or> (28 \<le> c \<and> c \<le> 32) \<or> c = 133 \<or> c = 160
     \<or> c = 5760 \<or> (8192 \<le> c \<and> c \<le> 8202) \<or> c = 8232 \<or> c = 8233 \<or> c = 8239
     \<or> c = 8287 \<or> c = 12288)"

definition strip :: "pystr \<Rightarrow> pystr" where
  "strip s = rev (dropWhile isspace (rev (dropWhile isspace s)))"

section \<open>Parsed JSON\<close>

text \<open>
  The value \<open>json.loads\<close> returns: \<open>None\<close>, \<open>bool\<close>, \<open>int\<close>, \<open>float\<close>, \<open>str\<close>,
  \<open>list\<close> or \<open>dict\<close>. A float is kept as mantissa and exponent; nothing below looks
  inside a number. A \<open>dict\<close> is an association list in insertion order, read with
  \<open>map_of\<close>.
\<close>

datatype json =
    JNull
  | JBool bool
  | JInt int
  | JFloat int int
  | JStr pystr
  | JArr "json list"
  | JObj "(pystr \<times> json) list"

section \<open>Exceptions\<close>

text \<open>
  One entry of a pydantic \<open>ValidationError\<close>: the location of the offending input (keys
  and list indices from the root) and what is wrong there.
\<close>

datatype loc_item = Key pystr | Idx nat

datatype verr_kind =
    Missing      \<comment> \<open>"Field required"\<close>
  | StringType   \<comment> \<open>"Input should be a valid string"\<close>
  | ModelType    \<comment> \<open>"Input should be a valid dictionary or instance of ..."\<close>
  | ListType     \<comment> \<open>"Input should be a valid list"\<close>

type_synonym verr = "loc_item list \<times> verr_kind"

text \<open>
  The exception classes the source raises, catches or lets through. \<open>IOError\<close> stands for
  \<open>OSError\<close> and its subclasses (PIL's \<open>UnidentifiedImageError\<close> is one), and
  \<open>RequestError\<close> for \<open>httpx.RequestError\<close> and its subclasses. \<open>OtherError\<close> is any
  other subclass of \<open>Exception\<close> raised inside a library. \<open>ValueError\<close> and
  \<open>RuntimeError\<close> carry their message and \<open>HTTPException\<close> its status and detail, as the
  source builds them; the others carry what tells one exception of the class from another.
  \<open>DBAPIError\<close> is SQLAlchemy's exception for a statement the driver or the server
  refuses, with the refusals the source can meet: an integer parameter outside the four
  bytes of an \<open>INTEGER\<close> (the driver's \<open>value out of int32 range\<close>), and the server's
  \<open>OFFSET must not be negative\<close> and \<open>LIMIT must not be negative\<close>.
\<close>

datatype db_fault = OutOfInt32 int | NegativeOffset | NegativeLimit

datatype exn =
    ValueError pystr
  | RuntimeError pystr
  | TypeError pystr
  | KeyError pystr
  | IndexError pystr
  | AttributeError pystr
  | IOError pystr
  | RequestError pystr
  | OtherError pystr
  | ValidationError "verr list"
  | HTTPException nat pystr
  | DBAPIError db_fault

section \<open>The schema (schemas.py)\<close>

record InvoiceItem =
  description :: pystr
  quantity :: "pystr option"
  unit_price :: "pystr option"
  total_price :: "pystr option"

record VendorInfo =
  name_english :: "pystr option"
  name_nepali :: "pystr option"
  address :: "pystr option"
  phone :: "pystr option"
  email :: "pystr option"
  vat_number :: "pystr option"

record CustomerInfo =
  name :: "pystr option"
  address :: "pystr option"
  vat_number :: "pystr option"

record Summary =
  subtotal :: "pystr option"
  tax_amount :: "pystr option"
  tax_rate_percent :: "pystr option"
  discount_amount :: "pystr option"
  total_amount_due :: "pystr option"
  amount_in_words :: "pystr option"
  has_company_stamp :: pystr

record InvoiceData =
  invoice_number :: "pystr option"
  transaction_number :: "pystr option"
  reference_number :: "pystr option"
  invoice_date_ad :: "pystr option"
  invoice_miti_bs :: "pystr option"
  vendor_info :: VendorInfo
  customer_info :: CustomerInfo
  line_items :: "InvoiceItem list"
  summary :: Summary

subsection \<open>\<open>model_validate\<close>\<close>

text \<open>
  Pydantic validates every field of a model and reports all errors together, in field
  order: \<open>ap\<close> applies a constructor to one more validated field and appends the errors.
\<close>

fun ap :: "verr list + ('a \<Rightarrow> 'b) \<Rightarrow> verr list + 'a \<Rightarrow> verr list + 'b" where
  "ap (Inr f) (Inr x) = Inr (f x)"
| "ap (Inl es) (Inr x) = Inl es"
| "ap (Inr f) (Inl es) = Inl es"
| "ap (Inl es) (Inl es') = Inl (es @ es')"

text \<open>The errors of a validation result: none when it succeeded.\<close>

definition errs :: "verr list + 'a \<Rightarrow> verr list" where
  "errs r = (case r of Inl es \<Rightarrow> es | Inr v \<Rightarrow> [])"

text \<open>
  A field declared \<open>str = Field(...)\<close>: the key must be there and hold a \<open>str\<close>. Pydantic
  2 does not turn a number or a boolean into a string.
\<close>

definition str_required :: "loc_item list \<Rightarrow> (pystr \<times> json) list \<Rightarrow> pystr \<Rightarrow> verr list + pystr" where
  "str_required loc d k =
     (case map_of d k of
        None \<Rightarrow> Inl [(loc @ [Key k], Missing)]
      | Some (JStr s) \<Rightarrow> Inr s
      | Some _ \<Rightarrow> Inl [(loc @ [Key k], StringType)])"

text \<open>
  A field declared \<open>Optional[str] = None\<close>: a missing key takes the default \<open>None\<close>, and
  \<open>null\<close> is accepted.
\<close>

definition str_optional :: "loc_item list \<Rightarrow> (pystr \<times> json) list \<Rightarrow> pystr \<Rightarrow> verr list + pystr option" where
  "str_optional loc d k =
     (case map_of d k of
        None \<Rightarrow> Inr None
      | Some JNull \<Rightarrow> Inr None
      | Some (JStr s) \<Rightarrow> Inr (Some s)
      | Some _ \<Rightarrow> Inl [(loc @ [Key k], StringType)])"

text \<open>A field without a default whose type is a model or a list: the key must be there.\<close>

definition field_required ::
  "loc_item list \<Rightarrow> (pystr \<times> json) list \<Rightarrow> pystr \<Rightarrow> (loc_item list \<Rightarrow> json \<Rightarrow> verr list + 'a) \<Rightarrow> verr list + 'a" where
  "field_required loc d k validate =
     (case map_of d k of
        None \<Rightarrow> Inl [(loc @ [Key k], Missing)]
      | Some j \<Rightarrow> validate (loc @ [Key k]) j)"

text \<open>Keys that the model does not declare are ignored (pydantic's default).\<close>

definition validate_InvoiceItem :: "loc_item list \<Rightarrow> json \<Rightarrow> verr list + InvoiceItem" where
  "validate_InvoiceItem loc j =
     (case j of
        JObj d \<Rightarrow>
          ap (ap (ap (ap (Inr (\<lambda>a b c e.
                \<lparr>description = a, quantity = b, unit_price = c, total_price = e\<rparr>))
            (str_required loc d (ascii ''description'')))
            (str_optional loc d (ascii ''quantity'')))
            (str_optional loc d (ascii ''unit_price'')))
            (str_optional loc d (ascii ''total_price''))
      | _ \<Rightarrow> Inl [(loc, ModelType)])"

definition validate_VendorInfo :: "loc_item list \<Rightarrow> json \<Rightarrow> verr list + VendorInfo" where
  "validate_VendorInfo loc j =
     (case j of
        JObj d \<Rightarrow>
          ap (ap (ap (ap (ap (ap (Inr (\<lambda>a b c e f g.
                \<lparr>name_english = a, name_nepali = b, address = c, phone = e, email = f,
                 vat_number = g\<rparr>))
            (str_optional loc d (ascii ''name_english'')))
            (str_optional loc d (ascii ''name_nepali'')))
            (str_optional loc d (ascii ''address'')))
            (str_optional loc d (ascii ''phone'')))
            (str_optional loc d (ascii ''email'')))
            (str_optional loc d (ascii ''vat_number''))
      | _ \<Rightarrow> Inl [(loc, ModelType)])"

definition validate_CustomerInfo :: "loc_item list \<Rightarrow> json \<Rightarrow> verr list + CustomerInfo" where
  "validate_CustomerInfo loc j =
     (case j of
        JObj d \<Rightarrow>
          ap (ap (ap (Inr (\<lambda>a b c. \<lparr>name = a, address = b, vat_number = c\<rparr>))
            (str_optional loc d (ascii ''name'')))
            (str_optional loc d (ascii ''address'')))
            (str_optional loc d (ascii ''vat_number''))
      | _ \<Rightarrow> Inl [(loc, ModelType)])"

definition validate_Summary :: "loc_item list \<Rightarrow> json \<Rightarrow> verr list + Summary" where
  "validate_Summary loc j =
     (case j of
        JObj d \<Rightarrow>
          ap (ap (ap (ap (ap (ap (ap (Inr (\<lambda>a b c e f g h.
                \<lparr>subtotal = a, tax_amount = b, tax_rate_percent = c, discount_amount = e,
                 total_amount_due = f, amount_in_words = g, has_company_stamp = h\<rparr>))
            (str_optional loc d (ascii ''subtotal'')))
            (str_optional loc d (ascii ''tax_amount'')))
            (str_optional loc d (ascii ''tax_rate_percent'')))
            (str_optional loc d (ascii ''discount_amount'')))
            (str_optional loc d (ascii ''total_amount_due'')))
            (str_optional loc d (ascii ''amount_in_words'')))
            (str_required loc d (ascii ''has_company_stamp''))
      | _ \<Rightarrow> Inl [(loc, ModelType)])"

text \<open>\<open>List[InvoiceItem]\<close>: a list, each element validated at its index.\<close>

fun validate_items :: "loc_item list \<Rightarrow> nat \<Rightarrow> json list \<Rightarrow> verr list + InvoiceItem list" where
  "validate_items loc i [] = Inr []"
| "validate_items loc i (j # js) =
     ap (ap (Inr (#)) (validate_InvoiceItem (loc @ [Idx i]) j)) (validate_items loc (Suc i) js)"

definition validate_line_items :: "loc_item list \<Rightarrow> json \<Rightarrow> verr list + InvoiceItem list" where
  "validate_line_items loc j =
     (case j of JArr js \<Rightarrow> validate_items loc 0 js | _ \<Rightarrow> Inl [(loc, ListType)])"

definition validate_InvoiceData :: "loc_item list \<Rightarrow> json \<Rightarrow> verr list + InvoiceData" where
  "validate_InvoiceData loc j =
     (case j of
        JObj d \<Rightarrow>
          ap (ap (ap (ap (ap (ap (ap (ap (ap (Inr (\<lambda>a b c e f g h i k.
                \<lparr>invoice_number = a, transaction_number = b, reference_number = c,
                 invoice_date_ad = e, invoice_miti_bs = f, vendor_info = g, customer_info = h,
                 line_items = i, summary = k\<rparr>))
            (str_optional loc d (ascii ''invoice_number'')))
            (str_optional loc d (ascii ''transaction_number'')))
            (str_optional loc d (ascii ''reference_number'')))
            (str_optional loc d (ascii ''invoice_date_ad'')))
            (str_optional loc d (ascii ''invoice_miti_bs'')))
            (field_required loc d (ascii ''vendor_info'') validate_VendorInfo))
            (field_required loc d (ascii ''customer_info'') validate_CustomerInfo))
            (field_required loc d (ascii ''line_items'') validate_line_items))
            (field_required loc d (ascii ''summary'') validate_Summary)
      | _ \<Rightarrow> Inl [(loc, ModelType)])"

text \<open>\<open>InvoiceData.model_validate(raw_json)\<close>: the record, or a \<open>ValidationError\<close>.\<close>

definition model_validate :: "json \<Rightarrow> exn + InvoiceData" where
  "model_validate j =
     (case validate_InvoiceData [] j of
        Inl es \<Rightarrow> Inl (ValidationError es)
      | Inr v \<Rightarrow> Inr v)"

subsection \<open>\<open>model_dump(mode='json')\<close>\<close>

text \<open>Every declared field is written, in declaration order; \<open>None\<close> becomes \<open>null\<close>.\<close>

definition dump_opt :: "pystr option \<Rightarrow> json" where
  "dump_opt v = (case v of None \<Rightarrow> JNull | Some s \<Rightarrow> JStr s)"

definition dump_InvoiceItem :: "InvoiceItem \<Rightarrow> json" where
  "dump_InvoiceItem x = JObj
     [(ascii ''description'', JStr (description x)),
      (ascii ''quantity'', dump_opt (quantity x)),
      (ascii ''unit_price'', dump_opt (unit_price x)),
      (ascii ''total_price'', dump_opt (total_price x))]"

definition dump_VendorInfo :: "VendorInfo \<Rightarrow> json" where
  "dump_VendorInfo x = JObj
     [(ascii ''name_english'', dump_opt (name_english x)),
      (ascii ''name_nepali'', dump_opt (name_nepali x)),
      (ascii ''address'', dump_opt (VendorInfo.address x)),
      (ascii ''phone'', dump_opt (phone x)),
      (ascii ''email'', dump_opt (email x)),
      (ascii ''vat_number'', dump_opt (VendorInfo.vat_number x))]"

definition dump_CustomerInfo :: "CustomerInfo \<Rightarrow> json" where
  "dump_CustomerInfo x = JObj
     [(ascii ''name'', dump_opt (name x)),
      (ascii ''address'', dump_opt (CustomerInfo.address x)),
      (ascii ''vat_number'', dump_opt (CustomerInfo.vat_number x))]"

definition dump_Summary :: "Summary \<Rightarrow> json" where
  "dump_Summary x = JObj
     [(ascii ''subtotal'', dump_opt (subtotal x)),
      (ascii ''tax_amount'', dump_opt (tax_amount x)),
      (ascii ''tax_rate_percent'', dump_opt (tax_rate_percent x)),
      (ascii ''discount_amount'', dump_opt (discount_amount x)),
      (ascii ''total_amount_due'', dump_opt (total_amount_due x)),
      (ascii ''amount_in_words'', dump_opt (amount_in_words x)),
      (ascii ''has_company_stamp'', JStr (has_company_stamp x))]"

definition model_dump :: "InvoiceData \<Rightarrow> json" where
  "model_dump x = JObj
     [(ascii ''invoice_number'', dump_opt (invoice_number x)),
      (ascii ''transaction_number'', dump_opt (transaction_number x)),
      (ascii ''reference_number'', dump_opt (reference_number x)),
      (ascii ''invoice_date_ad'', dump_opt (invoice_date_ad x)),
      (ascii ''invoice_miti_bs'', dump_opt (invoice_miti_bs x)),
      (ascii ''vendor_info'', dump_VendorInfo (vendor_info x)),
      (ascii ''customer_info'', dump_CustomerInfo (customer_info x)),
      (ascii ''line_items'', JArr (map dump_InvoiceItem (line_items x))),
      (ascii ''summary'', dump_Summary (summary x))]"

subsection \<open>The keys the schema declares\<close>

definition InvoiceItem_keys :: "pystr list" where
  "InvoiceItem_keys = map ascii [''description'', ''quantity'', ''unit_price'', ''total_price'']"

definition VendorInfo_keys :: "pystr list" where
  "VendorInfo_keys =
     map ascii [''name_english'', ''name_nepali'', ''address'', ''phone'', ''email'', ''vat_number'']"

definition CustomerInfo_keys :: "pystr list" where
  "CustomerInfo_keys = map ascii [''name'', ''address'', ''vat_number'']"

definition Summary_keys :: "pystr list" where
  "Summary_keys =
     map ascii [''subtotal'', ''tax_amount'', ''tax_rate_percent'', ''discount_amount'',
       ''total_amount_due'', ''amount_in_words'', ''has_company_stamp'']"

definition InvoiceData_keys :: "pystr list" where
  "InvoiceData_keys =
     map ascii [''invoice_number'', ''transaction_number'', ''reference_number'',
       ''invoice_date_ad'', ''invoice_miti_bs'', ''vendor_info'', ''customer_info'',
       ''line_items'', ''summary'']"

text \<open>
  The root fields declared without a default, and those declared \<open>Optional[str] = None\<close>.
\<close>

definition InvoiceData_required :: "pystr list" where
  "InvoiceData_required = map ascii [''vendor_info'', ''customer_info'', ''line_items'', ''summary'']"

definition InvoiceData_optional :: "pystr list" where
  "InvoiceData_optional =
     map ascii [''invoice_number'', ''transaction_number'', ''reference_number'',
       ''invoice_date_ad'', ''invoice_miti_bs'']"

text \<open>
  A JSON value is an object with exactly the keys \<open>ks\<close>; a serialized record is complete
  when the root and every nested object has exactly the keys its model declares.
\<close>

definition has_keys :: "pystr list \<Rightarrow> json \<Rightarrow> bool" where
  "has_keys ks j = (case j of JObj d \<Rightarrow> map fst d = ks | _ \<Rightarrow> False)"

definition member :: "json \<Rightarrow> pystr \<Rightarrow> json" where
  "member j k = (case j of JObj d \<Rightarrow> (case map_of d k of Some v \<Rightarrow> v | None \<Rightarrow> JNull) | _ \<Rightarrow> JNull)"

definition schema_complete :: "json \<Rightarrow> bool" where
  "schema_complete j =
     (has_keys InvoiceData_keys j
      \<and> has_keys VendorInfo_keys (member j (ascii ''vendor_info''))
      \<and> has_keys CustomerInfo_keys (member j (ascii ''customer_info''))
      \<and> (case member j (ascii ''line_items'') of
            JArr xs \<Rightarrow> list_all (has_keys InvoiceItem_keys) xs
          | _ \<Rightarrow> False)
      \<and> has_keys Summary_keys (member j (ascii ''summary'')))"

section \<open>The environment\<close>

type_synonym bytes = "8 word list"

text \<open>The body of the chat-completion request that \<open>process_invoice_with_vllm\<close> sends.\<close>

record chat_request =
  url :: pystr
  model :: pystr
  text_part :: pystr
  image_url :: pystr
  max_tokens :: nat
  temperature :: rat

text \<open>
  What \<open>str.isdigit\<close> and \<open>int\<close> read of a code point: a decimal digit with its value,
  a digit that is not decimal, or no digit.
\<close>

datatype numeric_type = Decimal nat | Digit | NotDigit

text \<open>
  What the source calls and does not define: the PDF renderer, the imaging library, the
  HTTP client with the model behind it, the JSON parser, the settings and the text of a
  library's exception. \<open>'img\<close> is a PIL image.
  \<^item> \<open>post_json\<close> is \<open>client.post\<close>, \<open>raise_for_status\<close> and \<open>response.json()\<close> together:
    the decoded body, or the exception one of the three raises.
  \<^item> \<open>json_loads\<close> raises \<open>JSONDecodeError\<close> on text that is not JSON.
  \<^item> \<open>exn_str\<close> is \<open>str(e)\<close> for an exception whose text a library composes.
  \<^item> \<open>unicode_numeric\<close> is the numeric type of a code point outside ASCII.
  \<^item> \<open>ilike\<close> is the database's \<open>ILIKE\<close>: value, then pattern.
  \<^item> \<open>int_max_str_digits\<close> is the interpreter's \<open>sys.get_int_max_str_digits()\<close>: 4300
    unless the deployment sets it, 0 for no limit.
  \<^item> \<open>repr\<close> is \<open>repr\<close> of a string.
\<close>

datatype jexn = JSONDecodeError | Raised exn

record 'img env =
  convert_from_bytes :: "bytes \<Rightarrow> exn + 'img list"
  image_open :: "bytes \<Rightarrow> exn + 'img"
  convert_rgb :: "'img \<Rightarrow> exn + 'img"
  save_jpeg :: "'img \<Rightarrow> exn + bytes"
  b64encode :: "bytes \<Rightarrow> pystr"
  VLLM_API_URL :: pystr
  MODEL_NAME :: pystr
  get_system_prompt :: pystr
  post_json :: "chat_request \<Rightarrow> exn + json"
  json_loads :: "pystr \<Rightarrow> jexn + json"
  exn_str :: "exn \<Rightarrow> pystr"
  unicode_numeric :: "nat \<Rightarrow> numeric_type"
  ilike :: "pystr \<Rightarrow> pystr \<Rightarrow> bool"
  int_max_str_digits :: nat
  repr :: "pystr \<Rightarrow> pystr"

text \<open>
  \<open>str(e)\<close>: the message for the exceptions the source raises itself with a message,
  the library's text otherwise.
\<close>

definition str_exn :: "'img env \<Rightarrow> exn \<Rightarrow> pystr" where
  "str_exn env e =
     (case e of
        ValueError m \<Rightarrow> m
      | RuntimeError m \<Rightarrow> m
      | _ \<Rightarrow> exn_str env e)"

section \<open>service.py\<close>

definition pdf_to_images :: "'img env \<Rightarrow> bytes \<Rightarrow> exn + 'img list" where
  "pdf_to_images env file_bytes =
     (case convert_from_bytes env file_bytes of
        Inr images \<Rightarrow> Inr images
      | Inl e \<Rightarrow> Inl (ValueError (ascii ''Failed to convert PDF to image: '' @ str_exn env e)))"

definition encode_image_to_base64 :: "'img env \<Rightarrow> 'img \<Rightarrow> exn + pystr" where
  "encode_image_to_base64 env img =
     (case convert_rgb env img of
        Inl e \<Rightarrow> Inl e
      | Inr rgb \<Rightarrow>
          (case save_jpeg env rgb of
             Inl e \<Rightarrow> Inl e
           | Inr buffered \<Rightarrow> Inr (b64encode env buffered)))"

subsection \<open>Reading the completion\<close>

text \<open>\<open>obj[key]\<close> with a string key, and \<open>obj[0]\<close>, on a decoded JSON value.\<close>

definition getitem_key :: "json \<Rightarrow> pystr \<Rightarrow> exn + json" where
  "getitem_key j k =
     (case j of
        JObj d \<Rightarrow> (case map_of d k of Some v \<Rightarrow> Inr v | None \<Rightarrow> Inl (KeyError k))
      | _ \<Rightarrow> Inl (TypeError []))"

definition getitem_0 :: "json \<Rightarrow> exn + json" where
  "getitem_0 j =
     (case j of
        JArr [] \<Rightarrow> Inl (IndexError [])
      | JArr (x # xs) \<Rightarrow> Inr x
      | JStr [] \<Rightarrow> Inl (IndexError [])
      | JStr (c # cs) \<Rightarrow> Inr (JStr [c])
      | JObj d \<Rightarrow> Inl (KeyError [])
      | _ \<Rightarrow> Inl (TypeError []))"

definition get_content :: "json \<Rightarrow> exn + json" where
  "get_content result =
     (case getitem_key result (ascii ''choices'') of
        Inl e \<Rightarrow> Inl e
      | Inr choices \<Rightarrow>
          (case getitem_0 choices of
             Inl e \<Rightarrow> Inl e
           | Inr choice \<Rightarrow>
               (case getitem_key choice (ascii ''message'') of
                  Inl e \<Rightarrow> Inl e
                | Inr message \<Rightarrow> getitem_key message (ascii ''content''))))"

subsection \<open>Cleanup of Markdown code blocks (lines 75 to 79)\<close>

definition fence :: pystr where
  "fence = ascii ''```''"

definition tagged :: pystr where
  "tagged = ascii ''```json''"

text \<open>\<open>xs[i]\<close> on a list: \<open>IndexError\<close> out of range.\<close>

definition nth_py :: "'a list \<Rightarrow> nat \<Rightarrow> exn + 'a" where
  "nth_py xs i = (if i < length xs then Inr (xs ! i) else Inl (IndexError []))"

definition sanitize :: "pystr \<Rightarrow> exn + pystr" where
  "sanitize content =
     (if contains tagged content then
        (case nth_py (split_py tagged content) 1 of
           Inl e \<Rightarrow> Inl e
         | Inr after \<Rightarrow>
             (case nth_py (split_py fence after) 0 of
                Inl e \<Rightarrow> Inl e
              | Inr inner \<Rightarrow> Inr (strip inner)))
      else if contains fence content then Inr (strip (replace_py fence [] content))
      else Inr content)"

text \<open>The number of backticks a text begins with.\<close>

definition lead :: "pystr \<Rightarrow> nat" where
  "lead s = length (takeWhile (\<lambda>c. c = 96) s)"

text \<open>
  The same three statements when \<open>content\<close> is not a \<open>str\<close>: \<open>in\<close> is membership in a
  list and key membership in a dict, neither has \<open>split\<close> or \<open>replace\<close>, \<open>json.loads\<close>
  takes neither, and \<open>in\<close> on \<open>None\<close>, a number or a boolean is a \<open>TypeError\<close>.
\<close>

definition non_str_content :: "json \<Rightarrow> exn" where
  "non_str_content content =
     (case content of
        JArr xs \<Rightarrow>
          (if JStr tagged \<in> set xs \<or> JStr fence \<in> set xs then AttributeError [] else TypeError [])
      | JObj d \<Rightarrow>
          (if tagged \<in> set (map fst d) \<or> fence \<in> set (map fst d) then AttributeError []
           else TypeError [])
      | _ \<Rightarrow> TypeError [])"

subsection \<open>\<open>process_invoice_with_vllm\<close>\<close>

text \<open>The body of the \<open>try\<close> (lines 66 to 90).\<close>

definition process_try :: "'img env \<Rightarrow> chat_request \<Rightarrow> exn + InvoiceData" where
  "process_try env request =
     (case post_json env request of
        Inl e \<Rightarrow> Inl e
      | Inr result \<Rightarrow>
          (case get_content result of
             Inl e \<Rightarrow> Inl e
           | Inr (JStr content) \<Rightarrow>
               (case sanitize content of
                  Inl e \<Rightarrow> Inl e
                | Inr content' \<Rightarrow>
                    (case json_loads env content' of
                       Inl JSONDecodeError \<Rightarrow>
                         Inl (ValueError (ascii ''Model did not return valid JSON: '' @ content'))
                     | Inl (Raised e) \<Rightarrow> Inl e
                     | Inr raw_json \<Rightarrow> model_validate raw_json))
           | Inr content \<Rightarrow> Inl (non_str_content content)))"

definition is_RequestError :: "exn \<Rightarrow> bool" where
  "is_RequestError e = (case e of RequestError m \<Rightarrow> True | _ \<Rightarrow> False)"

text \<open>The request of lines 41 to 62 for an encoded image.\<close>

definition payload :: "'img env \<Rightarrow> pystr \<Rightarrow> chat_request" where
  "payload env base64_image =
     \<lparr>url = VLLM_API_URL env @ ascii ''/chat/completions'',
      model = MODEL_NAME env,
      text_part = get_system_prompt env,
      image_url = ascii ''data:image/jpeg;base64,'' @ base64_image,
      max_tokens = 2048,
      temperature = 1 / 10\<rparr>"

text \<open>
  The image is encoded before the \<open>try\<close>, so an exception of the encoder leaves the
  function as it is. Inside, \<open>except httpx.RequestError\<close> comes before
  \<open>except Exception\<close>.
\<close>

definition process_invoice_with_vllm :: "'img env \<Rightarrow> 'img \<Rightarrow> exn + InvoiceData" where
  "process_invoice_with_vllm env img =
     (case encode_image_to_base64 env img of
        Inl e \<Rightarrow> Inl e
      | Inr base64_image \<Rightarrow>
          (case process_try env (payload env base64_image) of
             Inr validated_data \<Rightarrow> Inr validated_data
           | Inl e \<Rightarrow>
               (if is_RequestError e
                then Inl (RuntimeError (ascii ''API Request failed: '' @ str_exn env e))
                else Inl (RuntimeError (ascii ''Processing error: '' @ str_exn env e)))))"

section \<open>models.py and crud.py\<close>

record InvoiceLog =
  id' :: int
  filename :: pystr
  file_content :: bytes
  extracted_schema_content :: json
  created_at :: int

text \<open>
  The table \<open>invoice_logs\<close>: its rows in insertion order, the next value of the \<open>id\<close>
  sequence, and the server's clock, which fills \<open>created_at\<close>.
\<close>

record db =
  rows :: "InvoiceLog list"
  next_id :: int
  now :: int

text \<open>
  \<open>db.add\<close>, \<open>commit\<close> and \<open>refresh\<close>: the row is appended with the next identity and the
  time of the clock. The write itself is taken to succeed.
\<close>

definition create_invoice_log :: "db \<Rightarrow> pystr \<Rightarrow> bytes \<Rightarrow> InvoiceData \<Rightarrow> InvoiceLog \<times> db" where
  "create_invoice_log d fname file_bytes data =
     (let db_log =
        \<lparr>id' = next_id d,
         filename = fname,
         file_content = file_bytes,
         extracted_schema_content = model_dump data,
         created_at = now d\<rparr>
      in (db_log, d\<lparr>rows := rows d @ [db_log], next_id := next_id d + 1\<rparr>))"

definition get_invoice_log_by_id :: "db \<Rightarrow> int \<Rightarrow> InvoiceLog option" where
  "get_invoice_log_by_id d log_id = find (\<lambda>r. id' r = log_id) (rows d)"

text \<open>
  The identities in the table are those the sequence has handed out: positive and below
  its next value.
\<close>

definition db_ok :: "db \<Rightarrow> bool" where
  "db_ok d = (0 < next_id d \<and> list_all (\<lambda>r. 0 < id' r \<and> id' r < next_id d) (rows d))"

text \<open>The columns \<open>get_invoice_logs_metadata\<close> selects.\<close>

record log_meta =
  meta_id :: int
  meta_filename :: pystr
  meta_created_at :: int
  meta_extracted_schema_content :: json
  file_size :: nat

definition select_meta :: "InvoiceLog \<Rightarrow> log_meta" where
  "select_meta r =
     \<lparr>meta_id = id' r,
      meta_filename = InvoiceLog.filename r,
      meta_created_at = created_at r,
      meta_extracted_schema_content = extracted_schema_content r,
      file_size = length (file_content r)\<rparr>"

text \<open>\<open>ORDER BY created_at DESC\<close>; rows of one timestamp stay in insertion order.\<close>

definition order_by_created_at_desc :: "InvoiceLog list \<Rightarrow> InvoiceLog list" where
  "order_by_created_at_desc rs = sort_key (\<lambda>r. - created_at r) rs"

text \<open>
  \<open>str.isdigit\<close>: not empty, and every character has numeric type Decimal or Digit.
  \<open>str.isdecimal\<close>: not empty, and every character has numeric type Decimal.
\<close>

definition numeric :: "'img env \<Rightarrow> nat \<Rightarrow> numeric_type" where
  "numeric env c =
     (if 48 \<le> c \<and> c \<le> 57 then Decimal (c - 48)
      else if c < 128 then NotDigit
      else unicode_numeric env c)"

definition decimal :: "'img env \<Rightarrow> nat \<Rightarrow> bool" where
  "decimal env c = (case numeric env c of Decimal v \<Rightarrow> True | _ \<Rightarrow> False)"

definition isdigit :: "'img env \<Rightarrow> pystr \<Rightarrow> bool" where
  "isdigit env s = (s \<noteq> [] \<and> list_all (\<lambda>c. numeric env c \<noteq> NotDigit) s)"

definition isdecimal :: "'img env \<Rightarrow> pystr \<Rightarrow> bool" where
  "isdecimal env s = (s \<noteq> [] \<and> list_all (decimal env) s)"

text \<open>\<open>str(n)\<close> of a number that is not negative.\<close>

function str_nat :: "nat \<Rightarrow> pystr" where
  "str_nat n = (if n < 10 then [48 + n] else str_nat (n div 10) @ [48 + n mod 10])"
  by pat_completeness auto
termination
  by (relation "measure (\<lambda>n. n)") auto

declare str_nat.simps [simp del]

text \<open>
  \<open>int\<close> on a string of digit characters, the only kind the source passes to it (no
  sign, space or underscore). The interpreter counts the decimal digits the string starts
  with, and refuses more than \<open>int_max_str_digits\<close> of them when the limit is set and the
  count is above 640; then the string is the decimal value when every character is a
  decimal digit, and an invalid literal when one is a digit that is not decimal (a
  superscript two, say) or when the string is empty. Both refusals are \<open>ValueError\<close>.
\<close>

fun int_digits :: "'img env \<Rightarrow> int \<Rightarrow> pystr \<Rightarrow> int option" where
  "int_digits env acc [] = Some acc"
| "int_digits env acc (c # cs) =
     (case numeric env c of
        Decimal v \<Rightarrow> int_digits env (10 * acc + int v) cs
      | _ \<Rightarrow> None)"

definition int_py :: "'img env \<Rightarrow> pystr \<Rightarrow> exn + int" where
  "int_py env s =
     (let digits = length (takeWhile (decimal env) s);
          max_str_digits = int_max_str_digits env
      in if 640 < digits \<and> 0 < max_str_digits \<and> max_str_digits < digits then
           Inl (ValueError
             (ascii ''Exceeds the limit ('' @ str_nat max_str_digits
              @ ascii '' digits) for integer string conversion: value has ''
              @ str_nat digits
              @ ascii '' digits; use sys.set_int_max_str_digits() to increase the limit''))
         else
           (case (if s = [] then None else int_digits env 0 s) of
              None \<Rightarrow>
                Inl (ValueError
                  (ascii ''invalid literal for int() with base 10: '' @ take 200 (repr env s)))
            | Some n \<Rightarrow> Inr n))"

text \<open>
  The statement \<open>get_invoice_logs_metadata\<close> builds: the five selected columns ordered by
  \<open>created_at\<close>, most recent first, with the criterion, offset and limit it has been given.
\<close>

datatype criterion = IdEquals int | FilenameILike pystr

record select_stmt =
  whereclause :: "criterion option"
  offset_clause :: "int option"
  limit_clause :: "int option"

definition select_logs :: select_stmt where
  "select_logs = \<lparr>whereclause = None, offset_clause = None, limit_clause = None\<rparr>"

definition matches :: "'img env \<Rightarrow> criterion option \<Rightarrow> InvoiceLog \<Rightarrow> bool" where
  "matches env w r =
     (case w of
        None \<Rightarrow> True
      | Some (IdEquals n) \<Rightarrow> id' r = n
      | Some (FilenameILike p) \<Rightarrow> ilike env (InvoiceLog.filename r) p)"

text \<open>
  \<open>db.execute(stmt)\<close> and \<open>result.all()\<close>, with SQLAlchemy 2 on the \<open>asyncpg\<close> driver that
  \<open>DATABASE_URL\<close> names. The integer parameters are sent as \<open>INTEGER\<close>, in the order of
  the statement's text: the identity compared, the limit, the offset. The driver refuses
  the first that does not fit four bytes; the server then refuses a negative offset, then
  a negative limit; otherwise the rows that match are returned from the offset on, at most
  the limit of them. The connection itself is taken to work.
\<close>

definition int32 :: "int \<Rightarrow> bool" where
  "int32 v = (- (2 ^ 31) \<le> v \<and> v < 2 ^ 31)"

definition bind_parameters :: "select_stmt \<Rightarrow> int list" where
  "bind_parameters stmt =
     (case whereclause stmt of Some (IdEquals n) \<Rightarrow> [n] | _ \<Rightarrow> [])
     @ (case limit_clause stmt of Some n \<Rightarrow> [n] | None \<Rightarrow> [])
     @ (case offset_clause stmt of Some n \<Rightarrow> [n] | None \<Rightarrow> [])"

definition execute :: "'img env \<Rightarrow> db \<Rightarrow> select_stmt \<Rightarrow> exn + log_meta list" where
  "execute env d stmt =
     (case find (\<lambda>v. \<not> int32 v) (bind_parameters stmt) of
        Some v \<Rightarrow> Inl (DBAPIError (OutOfInt32 v))
      | None \<Rightarrow>
          (if (case offset_clause stmt of Some n \<Rightarrow> n < 0 | None \<Rightarrow> False) then
             Inl (DBAPIError NegativeOffset)
           else if (case limit_clause stmt of Some n \<Rightarrow> n < 0 | None \<Rightarrow> False) then
             Inl (DBAPIError NegativeLimit)
           else
             (let found = filter (matches env (whereclause stmt))
                            (order_by_created_at_desc (rows d));
                  from_offset =
                    (case offset_clause stmt of Some n \<Rightarrow> drop (nat n) found | None \<Rightarrow> found);
                  page =
                    (case limit_clause stmt of
                       Some n \<Rightarrow> take (nat n) from_offset
                     | None \<Rightarrow> from_offset)
              in Inr (map select_meta page))))"

definition get_invoice_logs_metadata ::
  "'img env \<Rightarrow> db \<Rightarrow> int \<Rightarrow> int \<Rightarrow> pystr option \<Rightarrow> pystr option \<Rightarrow> exn + log_meta list" where
  "get_invoice_logs_metadata env d skip limit search_query search_type =
     (let stmt = select_logs;
          filtered =
            (case search_query of
               None \<Rightarrow> Inr stmt
             | Some q \<Rightarrow>
                 (if q = [] then Inr stmt
                  else if search_type = Some (ascii ''id'') then
                    (if isdigit env q then
                       (case int_py env q of
                          Inl e \<Rightarrow> Inl e
                        | Inr n \<Rightarrow> Inr (stmt\<lparr>whereclause := Some (IdEquals n)\<rparr>))
                     else Inr (stmt\<lparr>whereclause := Some (IdEquals (- 1))\<rparr>))
                  else
                    Inr (stmt\<lparr>whereclause :=
                           Some (FilenameILike (ascii ''%'' @ q @ ascii ''%''))\<rparr>)))
      in case filtered of
           Inl e \<Rightarrow> Inl e
         | Inr stmt \<Rightarrow>
             execute env d (stmt\<lparr>offset_clause := Some skip, limit_clause := Some limit\<rparr>))"

text \<open>
  The claim's words: a string of decimal digits is a string on which \<open>isdecimal\<close> holds,
  and this is the number it denotes.
\<close>

definition decimal_value :: "'img env \<Rightarrow> pystr \<Rightarrow> int" where
  "decimal_value env s =
     foldl (\<lambda>acc c. 10 * acc + (case numeric env c of Decimal v \<Rightarrow> int v | _ \<Rightarrow> 0)) 0 s"

section \<open>main.py\<close>

record UploadFile =
  upload_filename :: "pystr option"
  content_type :: "pystr option"
  read :: bytes

record upload_response =
  message :: pystr
  log_id :: int
  data :: InvoiceData

text \<open>
  The calls an endpoint makes, in order: \<open>pdf_to_images\<close>, \<open>Image.open\<close>,
  \<open>process_invoice_with_vllm\<close>, \<open>create_invoice_log\<close>, and the conversion to RGB with
  the JPEG save of the preview.
\<close>

datatype event = PdfConvert | ImageOpen | ModelCall | DbInsert | JpegEncode

text \<open>
  Lines 69 to 77 of \<open>upload_invoice\<close>: the image to extract from, chosen by the declared
  content type, with the calls made. \<open>in\<close> on a content type of \<open>None\<close> is a
  \<open>TypeError\<close>.
\<close>

definition normalize_document ::
  "'img env \<Rightarrow> bytes \<Rightarrow> pystr option \<Rightarrow> (exn + 'img) \<times> event list" where
  "normalize_document env file_bytes ctype =
     (case ctype of
        None \<Rightarrow> (Inl (TypeError []), [])
      | Some ct \<Rightarrow>
          (if contains (ascii ''application/pdf'') ct then
             (case pdf_to_images env file_bytes of
                Inl e \<Rightarrow> (Inl e, [PdfConvert])
              | Inr [] \<Rightarrow> (Inl (HTTPException 400 (ascii ''Empty PDF file'')), [PdfConvert])
              | Inr (first # others) \<Rightarrow> (Inr first, [PdfConvert]))
           else if contains (ascii ''image'') ct then
             (case image_open env file_bytes of
                Inl e \<Rightarrow> (Inl e, [ImageOpen])
              | Inr pil_image \<Rightarrow> (Inr pil_image, [ImageOpen]))
           else
             (Inl (HTTPException 400 (ascii ''Unsupported file type. Use PDF or Image.'')), [])))"

text \<open>
  The body of the \<open>try\<close> of \<open>upload_invoice\<close> (lines 69 to 92): the result, the database
  after it and the calls made.
\<close>

definition upload_try ::
  "'img env \<Rightarrow> db \<Rightarrow> pystr \<Rightarrow> bytes \<Rightarrow> pystr option \<Rightarrow> (exn + upload_response) \<times> db \<times> event list" where
  "upload_try env d fname file_bytes ctype =
     (case normalize_document env file_bytes ctype of
        (Inl e, evs) \<Rightarrow> (Inl e, d, evs)
      | (Inr pil_image, evs) \<Rightarrow>
          (case process_invoice_with_vllm env pil_image of
             Inl e \<Rightarrow> (Inl e, d, evs @ [ModelCall])
           | Inr validated_data \<Rightarrow>
               (let (log_record, d') = create_invoice_log d fname file_bytes validated_data
                in (Inr \<lparr>message = ascii ''Success'', log_id = id' log_record,
                         data = validated_data\<rparr>,
                    d', evs @ [ModelCall, DbInsert]))))"

definition upload_invoice ::
  "'img env \<Rightarrow> db \<Rightarrow> UploadFile \<Rightarrow> (exn + upload_response) \<times> db \<times> event list" where
  "upload_invoice env d file =
     (case upload_filename file of
        None \<Rightarrow> (Inl (HTTPException 400 (ascii ''No filename provided'')), d, [])
      | Some fname \<Rightarrow>
          (if fname = [] then (Inl (HTTPException 400 (ascii ''No filename provided'')), d, [])
           else
             (case upload_try env d fname (read file) (content_type file) of
                (Inr r, d', evs) \<Rightarrow> (Inr r, d', evs)
              | (Inl e, d', evs) \<Rightarrow>
                  (Inl (HTTPException 500 (ascii ''Internal Server Error: '' @ str_exn env e)),
                   d', evs))))"

record StreamingResponse =
  body :: bytes
  media_type :: pystr

definition is_IOError :: "exn \<Rightarrow> bool" where
  "is_IOError e = (case e of IOError m \<Rightarrow> True | _ \<Rightarrow> False)"

text \<open>
  The body of the outer \<open>try\<close> of \<open>preview_log_image\<close> (lines 138 to 160). The inner
  \<open>except IOError\<close> catches only an \<open>IOError\<close> of \<open>Image.open\<close>; the \<open>except Exception\<close>
  around \<open>pdf_to_images\<close> catches everything.
\<close>

definition preview_try :: "'img env \<Rightarrow> bytes \<Rightarrow> (exn + StreamingResponse) \<times> event list" where
  "preview_try env file_bytes =
     (let encode = (\<lambda>output_image evs.
            case output_image of
              None \<Rightarrow>
                (Inl (HTTPException 400
                   (ascii ''Could not convert file content to image preview.'')), evs)
            | Some img \<Rightarrow>
                (case convert_rgb env img of
                   Inl e \<Rightarrow> (Inl e, evs @ [JpegEncode])
                 | Inr rgb \<Rightarrow>
                     (case save_jpeg env rgb of
                        Inl e \<Rightarrow> (Inl e, evs @ [JpegEncode])
                      | Inr buf \<Rightarrow>
                          (Inr \<lparr>body = buf, media_type = ascii ''image/jpeg''\<rparr>,
                           evs @ [JpegEncode]))))
      in case image_open env file_bytes of
           Inr img \<Rightarrow> encode (Some img) [ImageOpen]
         | Inl e \<Rightarrow>
             (if is_IOError e then
                (case pdf_to_images env file_bytes of
                   Inr (first # others) \<Rightarrow> encode (Some first) [ImageOpen, PdfConvert]
                 | Inr [] \<Rightarrow> encode None [ImageOpen, PdfConvert]
                 | Inl e' \<Rightarrow> encode None [ImageOpen, PdfConvert])
              else (Inl e, [ImageOpen])))"

definition preview_log_image ::
  "'img env \<Rightarrow> db \<Rightarrow> int \<Rightarrow> (exn + StreamingResponse) \<times> event list" where
  "preview_log_image env d lid =
     (case get_invoice_log_by_id d lid of
        None \<Rightarrow> (Inl (HTTPException 404 (ascii ''Log not found'')), [])
      | Some row \<Rightarrow>
          (case preview_try env (file_content row) of
             (Inr r, evs) \<Rightarrow> (Inr r, evs)
           | (Inl e, evs) \<Rightarrow>
               (Inl (HTTPException 500 (ascii ''Preview generation failed: '' @ str_exn env e)),
                evs)))"

section \<open>A simulated environment\<close>

text \<open>
  Concrete inputs to run the model on. \<open>minimal_object\<close> is the smallest object the schema
  accepts and \<open>minimal_record\<close> the record it validates to.
\<close>

definition minimal_object :: "(pystr \<times> json) list" where
  "minimal_object =
     [(ascii ''vendor_info'', JObj []),
      (ascii ''customer_info'', JObj []),
      (ascii ''line_items'', JArr []),
      (ascii ''summary'', JObj [(ascii ''has_company_stamp'', JStr (ascii ''Yes''))])]"

definition minimal_record :: InvoiceData where
  "minimal_record =
     \<lparr>invoice_number = None, transaction_number = None, reference_number = None,
      invoice_date_ad = None, invoice_miti_bs = None,
      vendor_info = \<lparr>name_english = None, name_nepali = None, address = None, phone = None,
        email = None, vat_number = None\<rparr>,
      customer_info = \<lparr>name = None, address = None, vat_number = None\<rparr>,
      line_items = [],
      summary = \<lparr>subtotal = None, tax_amount = None, tax_rate_percent = None,
        discount_amount = None, total_amount_due = None, amount_in_words = None,
        has_company_stamp = ascii ''Yes''\<rparr>\<rparr>"

text \<open>
  A stand-in for the libraries and the model, with an image as its bytes:
  \<^item> a document is \<open>%PDF\<close> followed by one byte per page; anything else is not a PDF;
  \<^item> an image begins with \<open>0xFF 0xD8\<close>; on bytes that begin with \<open>0x89\<close> the decoder
    refuses with an exception that is not an \<open>IOError\<close> (as PIL does on a decompression
    bomb); on anything else it raises \<open>IOError\<close>;
  \<^item> the model answers \<open>reply\<close> whatever it is sent;
  \<^item> the JSON parser knows two texts: \<open>{}\<close>, the empty object, and \<open><minimal>\<close>, which
    stands for a serialization of \<open>minimal_object\<close>;
  \<^item> the superscript digits of Latin-1 are digits that are not decimal.
\<close>

definition sim_env :: "pystr \<Rightarrow> bytes env" where
  "sim_env reply =
     \<lparr>convert_from_bytes = (\<lambda>b.
        if prefix [0x25, 0x50, 0x44, 0x46] b then Inr (map (\<lambda>x. [0xFF, 0xD8, x]) (drop 4 b))
        else Inl (OtherError (ascii ''Unable to get page count.''))),
      image_open = (\<lambda>b.
        if prefix [0xFF, 0xD8] b then Inr b
        else if prefix [0x89] b then Inl (OtherError (ascii ''decompression bomb''))
        else Inl (IOError (ascii ''cannot identify image file''))),
      convert_rgb = Inr,
      save_jpeg = Inr,
      b64encode = map unat,
      VLLM_API_URL = ascii ''http://localhost:8000/v1'',
      MODEL_NAME = ascii ''Qwen/Qwen3-VL-4B-Instruct'',
      get_system_prompt = ascii ''Analyze the provided invoice image.'',
      post_json = (\<lambda>req.
        Inr (JObj [(ascii ''choices'',
          JArr [JObj [(ascii ''message'', JObj [(ascii ''content'', JStr reply)])]])])),
      json_loads = (\<lambda>t.
        if t = ascii ''<minimal>'' then Inr (JObj minimal_object)
        else if t = ascii ''{}'' then Inr (JObj [])
        else Inl JSONDecodeError),
      exn_str = (\<lambda>e.
        case e of
          HTTPException c m \<Rightarrow> m
        | IOError m \<Rightarrow> m
        | RequestError m \<Rightarrow> m
        | OtherError m \<Rightarrow> m
        | ValidationError es \<Rightarrow> ascii ''validation error''
        | _ \<Rightarrow> []),
      unicode_numeric = (\<lambda>c. if c = 178 \<or> c = 179 \<or> c = 185 then Digit else NotDigit),
      ilike = (\<lambda>v p. contains (butlast (tl p)) v),
      int_max_str_digits = 4300,
      repr = (\<lambda>s. [39] @ s @ [39])\<rparr>"

definition empty_db :: db where
  "empty_db = \<lparr>rows = [], next_id = 1, now = 0\<rparr>"

text \<open>
  Uploads: an image, a document of two pages, a text file and a document without pages;
  and the row an upload stores.
\<close>

definition jpeg_upload :: UploadFile where
  "jpeg_upload =
     \<lparr>upload_filename = Some (ascii ''a.jpg''), content_type = Some (ascii ''image/jpeg''),
      read = [0xFF, 0xD8, 0x01]\<rparr>"

definition pdf_upload :: UploadFile where
  "pdf_upload =
     \<lparr>upload_filename = Some (ascii ''two.pdf''), content_type = Some (ascii ''application/pdf''),
      read = [0x25, 0x50, 0x44, 0x46, 0x01, 0x02]\<rparr>"

definition text_upload :: UploadFile where
  "text_upload =
     \<lparr>upload_filename = Some (ascii ''notes.txt''), content_type = Some (ascii ''text/plain''),
      read = [0x68, 0x69]\<rparr>"


definition stored_row :: "pystr \<Rightarrow> bytes \<Rightarrow> InvoiceLog" where
  "stored_row fname b =
     \<lparr>id' = 1, filename = fname, file_content = b,
      extracted_schema_content = model_dump minimal_record, created_at = 0\<rparr>"

text \<open>
  A table of four rows: a stored document of two pages, stored bytes that are neither an
  image nor a document, stored bytes on which the image decoder refuses, and a stored
  image.
\<close>

definition preview_db :: db where
  "preview_db =
     \<lparr>rows =
        [stored_row (ascii ''two.pdf'') [0x25, 0x50, 0x44, 0x46, 0x01, 0x02],
         (stored_row (ascii ''notes.txt'') [0x68, 0x69])\<lparr>id' := 2\<rparr>,
         (stored_row (ascii ''big.png'') [0x89, 0x50])\<lparr>id' := 3\<rparr>,
         (stored_row (ascii ''a.jpg'') [0xFF, 0xD8, 0x01])\<lparr>id' := 4\<rparr>],
      next_id = 5, now = 0\<rparr>"

section \<open>Round trip\<close>

lemma str_optional_dump:
  "map_of d k = Some (dump_opt v) \<Longrightarrow> str_optional loc d k = Inr v"
  by (simp add: str_optional_def dump_opt_def split: option.splits)

lemma str_required_dump:
  "map_of d k = Some (JStr s) \<Longrightarrow> str_required loc d k = Inr s"
  by (simp add: str_required_def)

lemma field_required_Some:
  "map_of d k = Some j \<Longrightarrow> field_required loc d k v = v (loc @ [Key k]) j"
  by (simp add: field_required_def)

lemma validate_dump_InvoiceItem: "validate_InvoiceItem loc (dump_InvoiceItem x) = Inr x"
  by (simp add: validate_InvoiceItem_def dump_InvoiceItem_def str_optional_dump
      str_required_dump ascii_def)

lemma validate_dump_VendorInfo: "validate_VendorInfo loc (dump_VendorInfo x) = Inr x"
  by (simp add: validate_VendorInfo_def dump_VendorInfo_def str_optional_dump ascii_def)

lemma validate_dump_CustomerInfo: "validate_CustomerInfo loc (dump_CustomerInfo x) = Inr x"
  by (simp add: validate_CustomerInfo_def dump_CustomerInfo_def str_optional_dump ascii_def)

lemma validate_dump_Summary: "validate_Summary loc (dump_Summary x) = Inr x"
  by (simp add: validate_Summary_def dump_Summary_def str_optional_dump str_required_dump
      ascii_def)

lemma validate_dump_items: "validate_items loc i (map dump_InvoiceItem xs) = Inr xs"
  by (induction xs arbitrary: i) (simp_all add: validate_dump_InvoiceItem)

lemma validate_dump: "validate_InvoiceData loc (model_dump x) = Inr x"
  by (simp add: validate_InvoiceData_def model_dump_def str_optional_dump field_required_Some
      validate_dump_VendorInfo validate_dump_CustomerInfo validate_dump_Summary
      validate_line_items_def validate_dump_items ascii_def)

text \<open>
  Claim C4. For every \<open>InvoiceData\<close> value, the structured content that
  \<open>create_invoice_log\<close> persists (\<open>model_dump(mode='json')\<close> of the value), parsed back
  with \<open>model_validate\<close>, is the value itself: the serialization loses nothing.
\<close>

theorem C4_persisted_content_round_trip:
  "model_validate (extracted_schema_content (fst (create_invoice_log d fname file_bytes x)))
     = Inr x"
  by (simp add: create_invoice_log_def model_validate_def validate_dump Let_def)

section \<open>Completeness\<close>

lemma schema_complete_dump: "schema_complete (model_dump x)"
  by (simp add: schema_complete_def model_dump_def has_keys_def member_def
      InvoiceData_keys_def VendorInfo_keys_def CustomerInfo_keys_def Summary_keys_def
      InvoiceItem_keys_def dump_VendorInfo_def dump_CustomerInfo_def dump_Summary_def
      dump_InvoiceItem_def ascii_def list_all_iff)

section \<open>ap\<close>

lemma errs_ap: "errs (ap f x) = errs f @ errs x"
  by (cases f; cases x) (simp_all add: errs_def)

lemma errs_Inr [simp]: "errs (Inr v) = []"
  by (simp add: errs_def)

lemma errs_nonempty: "errs r \<noteq> [] \<Longrightarrow> r = Inl (errs r)"
  by (cases r) (simp_all add: errs_def)

lemma errs_field_required_missing:
  "map_of d k = None \<Longrightarrow> errs (field_required loc d k v) = [(loc @ [Key k], Missing)]"
  by (simp add: field_required_def errs_def)

lemma errs_str_required_missing:
  "map_of d k = None \<Longrightarrow> errs (str_required loc d k) = [(loc @ [Key k], Missing)]"
  by (simp add: str_required_def errs_def)

lemma model_validate_errs:
  assumes "e \<in> set (errs (validate_InvoiceData [] j))"
  shows "\<exists>es. model_validate j = Inl (ValidationError es) \<and> e \<in> set es"
proof (cases "validate_InvoiceData [] j")
  case (Inl es)
  with assms show ?thesis by (simp add: model_validate_def errs_def)
next
  case (Inr v)
  with assms show ?thesis by (simp add: errs_def)
qed

lemma errs_InvoiceData:
  "errs (validate_InvoiceData loc (JObj d)) =
     errs (str_optional loc d (ascii ''invoice_number''))
   @ errs (str_optional loc d (ascii ''transaction_number''))
   @ errs (str_optional loc d (ascii ''reference_number''))
   @ errs (str_optional loc d (ascii ''invoice_date_ad''))
   @ errs (str_optional loc d (ascii ''invoice_miti_bs''))
   @ errs (field_required loc d (ascii ''vendor_info'') validate_VendorInfo)
   @ errs (field_required loc d (ascii ''customer_info'') validate_CustomerInfo)
   @ errs (field_required loc d (ascii ''line_items'') validate_line_items)
   @ errs (field_required loc d (ascii ''summary'') validate_Summary)"
  by (simp add: validate_InvoiceData_def errs_ap)

lemma required_missing:
  assumes "k \<in> set InvoiceData_required" and "map_of d k = None"
  shows "\<exists>es. model_validate (JObj d) = Inl (ValidationError es) \<and> ([Key k], Missing) \<in> set es"
proof (rule model_validate_errs)
  from assms(1) consider "k = ascii ''vendor_info''" | "k = ascii ''customer_info''"
    | "k = ascii ''line_items''" | "k = ascii ''summary''"
    by (auto simp: InvoiceData_required_def)
  then show "([Key k], Missing) \<in> set (errs (validate_InvoiceData [] (JObj d)))"
  proof cases
    case 1
    with assms(2) show ?thesis by (simp add: errs_InvoiceData errs_field_required_missing)
  next
    case 2
    with assms(2) show ?thesis by (simp add: errs_InvoiceData errs_field_required_missing)
  next
    case 3
    with assms(2) show ?thesis by (simp add: errs_InvoiceData errs_field_required_missing)
  next
    case 4
    with assms(2) show ?thesis by (simp add: errs_InvoiceData errs_field_required_missing)
  qed
qed

lemma errs_Summary_missing:
  "map_of s (ascii ''has_company_stamp'') = None \<Longrightarrow>
   (loc @ [Key (ascii ''has_company_stamp'')], Missing) \<in> set (errs (validate_Summary loc (JObj s)))"
  by (simp add: validate_Summary_def errs_ap errs_str_required_missing)

lemma summary_missing:
  assumes "map_of d (ascii ''summary'') = Some (JObj s)"
    and "map_of s (ascii ''has_company_stamp'') = None"
  shows "\<exists>es. model_validate (JObj d) = Inl (ValidationError es)
     \<and> ([Key (ascii ''summary''), Key (ascii ''has_company_stamp'')], Missing) \<in> set es"
proof (rule model_validate_errs)
  show "([Key (ascii ''summary''), Key (ascii ''has_company_stamp'')], Missing)
      \<in> set (errs (validate_InvoiceData [] (JObj d)))"
    using errs_Summary_missing [OF assms(2), of "[Key (ascii ''summary'')]"] assms(1)
    by (simp add: errs_InvoiceData field_required_Some)
qed

lemma errs_InvoiceItem_missing:
  "map_of it (ascii ''description'') = None \<Longrightarrow>
   (loc @ [Key (ascii ''description'')], Missing) \<in> set (errs (validate_InvoiceItem loc (JObj it)))"
  by (simp add: validate_InvoiceItem_def errs_ap errs_str_required_missing)

lemma errs_items_missing:
  "i < length xs \<Longrightarrow> xs ! i = JObj it \<Longrightarrow> map_of it (ascii ''description'') = None \<Longrightarrow>
   (loc @ [Idx (n + i), Key (ascii ''description'')], Missing) \<in> set (errs (validate_items loc n xs))"
proof (induction xs arbitrary: i n)
  case Nil
  then show ?case by simp
next
  case (Cons x xs)
  show ?case
  proof (cases i)
    case 0
    with Cons.prems show ?thesis
      using errs_InvoiceItem_missing [of it "loc @ [Idx n]"] by (simp add: errs_ap)
  next
    case (Suc m)
    with Cons.prems have "m < length xs" "xs ! m = JObj it" by simp_all
    from Cons.IH [OF this Cons.prems(3), of "Suc n"] Suc show ?thesis
      by (simp add: errs_ap)
  qed
qed

lemma item_missing:
  assumes "map_of d (ascii ''line_items'') = Some (JArr xs)"
    and "i < length xs" and "xs ! i = JObj it"
    and "map_of it (ascii ''description'') = None"
  shows "\<exists>es. model_validate (JObj d) = Inl (ValidationError es)
     \<and> ([Key (ascii ''line_items''), Idx i, Key (ascii ''description'')], Missing) \<in> set es"
proof (rule model_validate_errs)
  show "([Key (ascii ''line_items''), Idx i, Key (ascii ''description'')], Missing)
      \<in> set (errs (validate_InvoiceData [] (JObj d)))"
    using errs_items_missing [OF assms(2,3,4), of "[Key (ascii ''line_items'')]" 0] assms(1)
    by (simp add: errs_InvoiceData field_required_Some validate_line_items_def)
qed

section \<open>Omitted optional keys\<close>

lemma str_optional_null:
  "map_of d k = None \<Longrightarrow> str_optional loc ((k, JNull) # d) k' = str_optional loc d k'"
  by (simp add: str_optional_def)

lemma str_required_null:
  "k' \<noteq> k \<Longrightarrow> str_required loc ((k, JNull) # d) k' = str_required loc d k'"
  by (simp add: str_required_def)

lemma field_required_null:
  "k' \<noteq> k \<Longrightarrow> field_required loc ((k, JNull) # d) k' v = field_required loc d k' v"
  by (simp add: field_required_def)

lemma VendorInfo_null:
  "map_of d k = None \<Longrightarrow>
   validate_VendorInfo loc (JObj ((k, JNull) # d)) = validate_VendorInfo loc (JObj d)"
  by (simp add: validate_VendorInfo_def str_optional_null)

lemma CustomerInfo_null:
  "map_of d k = None \<Longrightarrow>
   validate_CustomerInfo loc (JObj ((k, JNull) # d)) = validate_CustomerInfo loc (JObj d)"
  by (simp add: validate_CustomerInfo_def str_optional_null)

lemma Summary_null:
  "map_of d k = None \<Longrightarrow> k \<noteq> ascii ''has_company_stamp'' \<Longrightarrow>
   validate_Summary loc (JObj ((k, JNull) # d)) = validate_Summary loc (JObj d)"
  by (simp add: validate_Summary_def str_optional_null str_required_null)

lemma InvoiceItem_null:
  "map_of d k = None \<Longrightarrow> k \<noteq> ascii ''description'' \<Longrightarrow>
   validate_InvoiceItem loc (JObj ((k, JNull) # d)) = validate_InvoiceItem loc (JObj d)"
  by (simp add: validate_InvoiceItem_def str_optional_null str_required_null)

lemma InvoiceData_null:
  assumes "map_of d k = None" and "k \<in> set InvoiceData_optional"
  shows "model_validate (JObj ((k, JNull) # d)) = model_validate (JObj d)"
proof -
  from assms(2) have "k \<noteq> ascii ''vendor_info''" "k \<noteq> ascii ''customer_info''"
    "k \<noteq> ascii ''line_items''" "k \<noteq> ascii ''summary''"
    by (auto simp: InvoiceData_optional_def ascii_def)
  then have "validate_InvoiceData [] (JObj ((k, JNull) # d)) = validate_InvoiceData [] (JObj d)"
    using assms(1)
    by (simp add: validate_InvoiceData_def str_optional_null field_required_null)
  then show ?thesis by (simp add: model_validate_def)
qed

section \<open>Schema completeness\<close>

lemma optional_nested_null:
  assumes "map_of m q = None"
  shows "validate_VendorInfo loc (JObj ((q, JNull) # m)) = validate_VendorInfo loc (JObj m)
    \<and> validate_CustomerInfo loc (JObj ((q, JNull) # m)) = validate_CustomerInfo loc (JObj m)
    \<and> (q \<noteq> ascii ''has_company_stamp'' \<longrightarrow>
         validate_Summary loc (JObj ((q, JNull) # m)) = validate_Summary loc (JObj m))
    \<and> (q \<noteq> ascii ''description'' \<longrightarrow>
         validate_InvoiceItem loc (JObj ((q, JNull) # m)) = validate_InvoiceItem loc (JObj m))"
  using assms VendorInfo_null CustomerInfo_null Summary_null InvoiceItem_null by blast

text \<open>
  Claim C1, as amended. The serialization of every validated record has every key the
  schema declares, at the root and in every nested object. An object that omits a
  required key (\<open>vendor_info\<close>, \<open>customer_info\<close>, \<open>line_items\<close>, \<open>summary\<close>, the
  \<open>has_company_stamp\<close> of the summary, the \<open>description\<close> of a line item) fails with a
  \<open>ValidationError\<close> that names the path of the key as missing. An object that omits a
  key declared \<open>Optional[str] = None\<close> validates exactly as if the key were there with
  \<open>null\<close>.
\<close>

theorem C1_schema_completeness:
  "(model_validate j = Inr x \<longrightarrow> schema_complete (model_dump x))
   \<and> (k \<in> set InvoiceData_required \<and> map_of d k = None \<longrightarrow>
        (\<exists>es. model_validate (JObj d) = Inl (ValidationError es) \<and> ([Key k], Missing) \<in> set es))
   \<and> (map_of d (ascii ''summary'') = Some (JObj s)
        \<and> map_of s (ascii ''has_company_stamp'') = None \<longrightarrow>
        (\<exists>es. model_validate (JObj d) = Inl (ValidationError es)
           \<and> ([Key (ascii ''summary''), Key (ascii ''has_company_stamp'')], Missing) \<in> set es))
   \<and> (map_of d (ascii ''line_items'') = Some (JArr xs) \<and> i < length xs \<and> xs ! i = JObj it
        \<and> map_of it (ascii ''description'') = None \<longrightarrow>
        (\<exists>es. model_validate (JObj d) = Inl (ValidationError es)
           \<and> ([Key (ascii ''line_items''), Idx i, Key (ascii ''description'')], Missing) \<in> set es))
   \<and> (k' \<in> set InvoiceData_optional \<and> map_of d k' = None \<longrightarrow>
        model_validate (JObj d) = model_validate (JObj ((k', JNull) # d)))
   \<and> (map_of m q = None \<longrightarrow>
        validate_VendorInfo loc (JObj m) = validate_VendorInfo loc (JObj ((q, JNull) # m))
        \<and> validate_CustomerInfo loc (JObj m) = validate_CustomerInfo loc (JObj ((q, JNull) # m))
        \<and> (q \<noteq> ascii ''has_company_stamp'' \<longrightarrow>
             validate_Summary loc (JObj m) = validate_Summary loc (JObj ((q, JNull) # m)))
        \<and> (q \<noteq> ascii ''description'' \<longrightarrow>
             validate_InvoiceItem loc (JObj m) = validate_InvoiceItem loc (JObj ((q, JNull) # m))))"
proof (intro conjI impI)
  show "schema_complete (model_dump x)" by (rule schema_complete_dump)
next
  assume "k \<in> set InvoiceData_required \<and> map_of d k = None"
  then show "\<exists>es. model_validate (JObj d) = Inl (ValidationError es) \<and> ([Key k], Missing) \<in> set es"
    using required_missing by blast
next
  assume "map_of d (ascii ''summary'') = Some (JObj s)
      \<and> map_of s (ascii ''has_company_stamp'') = None"
  then show "\<exists>es. model_validate (JObj d) = Inl (ValidationError es)
      \<and> ([Key (ascii ''summary''), Key (ascii ''has_company_stamp'')], Missing) \<in> set es"
    using summary_missing by blast
next
  assume "map_of d (ascii ''line_items'') = Some (JArr xs) \<and> i < length xs \<and> xs ! i = JObj it
      \<and> map_of it (ascii ''description'') = None"
  then show "\<exists>es. model_validate (JObj d) = Inl (ValidationError es)
      \<and> ([Key (ascii ''line_items''), Idx i, Key (ascii ''description'')], Missing) \<in> set es"
    using item_missing by blast
next
  assume "k' \<in> set InvoiceData_optional \<and> map_of d k' = None"
  then show "model_validate (JObj d) = model_validate (JObj ((k', JNull) # d))"
    using InvoiceData_null [of d k'] by simp
next
  assume a: "map_of m q = None"
  show "validate_VendorInfo loc (JObj m) = validate_VendorInfo loc (JObj ((q, JNull) # m))"
    using optional_nested_null [OF a, of loc] by simp
  show "validate_CustomerInfo loc (JObj m) = validate_CustomerInfo loc (JObj ((q, JNull) # m))"
    using optional_nested_null [OF a, of loc] by simp
  show "validate_Summary loc (JObj m) = validate_Summary loc (JObj ((q, JNull) # m))"
    if "q \<noteq> ascii ''has_company_stamp''"
    using optional_nested_null [OF a, of loc] that by simp
  show "validate_InvoiceItem loc (JObj m) = validate_InvoiceItem loc (JObj ((q, JNull) # m))"
    if "q \<noteq> ascii ''description''"
    using optional_nested_null [OF a, of loc] that by simp
qed

lemma validate_minimal: "model_validate (JObj minimal_object) = Inr minimal_record"
  by (simp add: model_validate_def validate_InvoiceData_def minimal_object_def
      minimal_record_def str_optional_def field_required_def validate_VendorInfo_def
      validate_CustomerInfo_def validate_Summary_def validate_line_items_def str_required_def
      ascii_def)

theorem C1_omitted_optional_counterexample:
  "ascii ''invoice_number'' \<in> set InvoiceData_keys
   \<and> map_of minimal_object (ascii ''invoice_number'') = None
   \<and> model_validate (JObj minimal_object) = Inr minimal_record
   \<and> invoice_number minimal_record = None"
  by (simp add: validate_minimal)
    (simp add: InvoiceData_keys_def minimal_object_def minimal_record_def ascii_def)

theorem C1_schema_completeness_witness:
  "(model_validate (JObj minimal_object) = Inr minimal_record
      \<and> schema_complete (model_dump minimal_record))
   \<and> (ascii ''summary'' \<in> set InvoiceData_required \<and> map_of [] (ascii ''summary'') = None
      \<and> (\<exists>es. model_validate (JObj []) = Inl (ValidationError es)
           \<and> ([Key (ascii ''summary'')], Missing) \<in> set es))
   \<and> (map_of [(ascii ''summary'', JObj [])] (ascii ''summary'') = Some (JObj [])
      \<and> map_of [] (ascii ''has_company_stamp'') = None
      \<and> (\<exists>es. model_validate (JObj [(ascii ''summary'', JObj [])]) = Inl (ValidationError es)
           \<and> ([Key (ascii ''summary''), Key (ascii ''has_company_stamp'')], Missing) \<in> set es))
   \<and> (map_of [(ascii ''line_items'', JArr [JObj []])] (ascii ''line_items'') = Some (JArr [JObj []])
      \<and> (0::nat) < length [JObj []] \<and> [JObj []] ! 0 = JObj []
      \<and> map_of [] (ascii ''description'') = None
      \<and> (\<exists>es. model_validate (JObj [(ascii ''line_items'', JArr [JObj []])])
             = Inl (ValidationError es)
           \<and> ([Key (ascii ''line_items''), Idx 0, Key (ascii ''description'')], Missing) \<in> set es))
   \<and> (ascii ''invoice_number'' \<in> set InvoiceData_optional
      \<and> map_of minimal_object (ascii ''invoice_number'') = None
      \<and> model_validate (JObj ((ascii ''invoice_number'', JNull) # minimal_object))
          = Inr minimal_record)
   \<and> (map_of [] (ascii ''phone'') = None
      \<and> validate_VendorInfo [] (JObj []) = validate_VendorInfo [] (JObj [(ascii ''phone'', JNull)])
      \<and> ascii ''phone'' \<noteq> ascii ''has_company_stamp''
      \<and> validate_Summary [] (JObj []) = validate_Summary [] (JObj [(ascii ''phone'', JNull)]))"
proof -
  have a: "ascii ''summary'' \<in> set InvoiceData_required"
    by (simp add: InvoiceData_required_def)
  have b: "ascii ''invoice_number'' \<in> set InvoiceData_optional"
    by (simp add: InvoiceData_optional_def)
  have c: "map_of minimal_object (ascii ''invoice_number'') = None"
    by (simp add: minimal_object_def ascii_def)
  have m0: "map_of [] (ascii ''summary'') = None" "map_of [] (ascii ''has_company_stamp'') = None"
    "map_of [] (ascii ''description'') = None" "map_of [] (ascii ''phone'') = None"
    by simp_all
  have m1: "map_of [(ascii ''summary'', JObj [])] (ascii ''summary'') = Some (JObj [])"
    "map_of [(ascii ''line_items'', JArr [JObj []])] (ascii ''line_items'') = Some (JArr [JObj []])"
    "(0::nat) < length [JObj []]" "[JObj []] ! 0 = JObj []"
    "ascii ''phone'' \<noteq> ascii ''has_company_stamp''"
    by (simp_all add: ascii_def)
  have p1: "schema_complete (model_dump minimal_record)"
    using C1_schema_completeness [of "JObj minimal_object" minimal_record] validate_minimal
    by blast
  have p2: "\<exists>es. model_validate (JObj []) = Inl (ValidationError es)
      \<and> ([Key (ascii ''summary'')], Missing) \<in> set es"
    using C1_schema_completeness [of _ _ "ascii ''summary''" "[]"] a m0(1) by blast
  have p3: "model_validate (JObj minimal_object)
      = model_validate (JObj ((ascii ''invoice_number'', JNull) # minimal_object))"
    using C1_schema_completeness [of _ _ _ minimal_object _ _ _ _ "ascii ''invoice_number''"] b c
    by blast
  from p3 have p4: "model_validate (JObj ((ascii ''invoice_number'', JNull) # minimal_object))
      = Inr minimal_record"
    by (simp add: validate_minimal)
  have p5: "\<exists>es. model_validate (JObj [(ascii ''summary'', JObj [])]) = Inl (ValidationError es)
      \<and> ([Key (ascii ''summary''), Key (ascii ''has_company_stamp'')], Missing) \<in> set es"
    using C1_schema_completeness [of _ _ _ "[(ascii ''summary'', JObj [])]" "[]"] m1(1) m0(2)
    by blast
  have p6: "\<exists>es. model_validate (JObj [(ascii ''line_items'', JArr [JObj []])])
        = Inl (ValidationError es)
      \<and> ([Key (ascii ''line_items''), Idx 0, Key (ascii ''description'')], Missing) \<in> set es"
    using C1_schema_completeness [of _ _ _ "[(ascii ''line_items'', JArr [JObj []])]" _
        "[JObj []]" 0 "[]"] m1(2,3,4) m0(3)
    by blast
  have p7: "validate_VendorInfo [] (JObj []) = validate_VendorInfo [] (JObj [(ascii ''phone'', JNull)])
      \<and> validate_Summary [] (JObj []) = validate_Summary [] (JObj [(ascii ''phone'', JNull)])"
    using C1_schema_completeness [of _ _ _ _ _ _ _ _ _ "[]" "ascii ''phone''" "[]"] m0(4) m1(5)
    by blast
  from a b c m0 m1 p1 p2 p4 p5 p6 p7 validate_minimal show ?thesis by blast
qed

section \<open>Occurrences\<close>

lemma contains_iff: "contains sub s \<longleftrightarrow> (\<exists>a b. s = a @ sub @ b)"
proof (induction s)
  case Nil
  then show ?case by auto
next
  case (Cons x xs)
  show ?case
  proof
    assume "contains sub (x # xs)"
    then consider "prefix sub (x # xs)" | "contains sub xs" by auto
    then show "\<exists>a b. x # xs = a @ sub @ b"
    proof cases
      case 1
      then obtain b where "x # xs = sub @ b" by (auto simp: prefix_def)
      then have "x # xs = [] @ sub @ b" by simp
      then show ?thesis by blast
    next
      case 2
      with Cons.IH obtain a b where "xs = a @ sub @ b" by blast
      then have "x # xs = (x # a) @ sub @ b" by simp
      then show ?thesis by blast
    qed
  next
    assume "\<exists>a b. x # xs = a @ sub @ b"
    then obtain a b where ab: "x # xs = a @ sub @ b" by blast
    show "contains sub (x # xs)"
    proof (cases a)
      case Nil
      with ab have "prefix sub (x # xs)" by simp
      then show ?thesis by simp
    next
      case (Cons y ys)
      with ab have "xs = ys @ sub @ b" by simp
      with Cons.IH have "contains sub xs" by blast
      then show ?thesis by simp
    qed
  qed
qed

lemma contains_append: "contains sub (a @ sub @ b)"
  by (auto simp: contains_iff)

lemma contains_mono: "contains sub s \<Longrightarrow> contains sub (a @ s @ b)"
proof -
  assume "contains sub s"
  then obtain u v where "s = u @ sub @ v" by (auto simp: contains_iff)
  then have "a @ s @ b = (a @ u) @ sub @ (v @ b)" by simp
  then show ?thesis unfolding contains_iff by blast
qed

lemma contains_trans: "contains small big \<Longrightarrow> contains big s \<Longrightarrow> contains small s"
proof -
  assume "contains small big" "contains big s"
  then obtain a b u v where "big = a @ small @ b" "s = u @ big @ v" by (auto simp: contains_iff)
  then have "s = (u @ a) @ small @ (b @ v)" by simp
  then show ?thesis unfolding contains_iff by blast
qed

text \<open>The first occurrence.\<close>

lemma first_occurrence:
  "sub \<noteq> [] \<Longrightarrow> contains sub s \<Longrightarrow>
   \<exists>a b. s = a @ sub @ b \<and> \<not> contains sub (a @ butlast sub)"
proof (induction s)
  case Nil
  then show ?case by simp
next
  case (Cons x xs)
  show ?case
  proof (cases "prefix sub (x # xs)")
    case True
    then obtain b where "x # xs = [] @ sub @ b" by (auto simp: prefix_def)
    moreover have "\<not> contains sub ([] @ butlast sub)"
    proof
      assume "contains sub ([] @ butlast sub)"
      then obtain u v where "butlast sub = u @ sub @ v" by (auto simp: contains_iff)
      then have "length (butlast sub) \<ge> length sub" by (metis length_append le_add1 le_add2 le_trans)
      moreover have "length (butlast sub) < length sub"
        using Cons.prems(1) by (cases sub rule: rev_cases) simp_all
      ultimately show False by linarith
    qed
    ultimately show ?thesis by blast
  next
    case False
    with Cons.prems have "contains sub xs" by simp
    with Cons.IH Cons.prems obtain a b where ab: "xs = a @ sub @ b" "\<not> contains sub (a @ butlast sub)"
      by blast
    have "\<not> prefix sub ((x # a) @ butlast sub)"
    proof
      assume p: "prefix sub ((x # a) @ butlast sub)"
      have "prefix ((x # a) @ butlast sub) (x # xs)"
        using ab(1) Cons.prems(1) by (simp add: prefix_def) (metis append_butlast_last_id append.assoc)
      with p have "prefix sub (x # xs)" by (rule prefix_order.trans)
      with False show False by simp
    qed
    with ab(2) have "\<not> contains sub ((x # a) @ butlast sub)" by simp
    moreover from ab(1) have "x # xs = (x # a) @ sub @ b" by simp
    ultimately show ?thesis by blast
  qed
qed

section \<open>split\<close>

lemma not_contains_not_prefix: "\<not> contains sub s \<Longrightarrow> \<not> prefix sub s"
  by (cases s) auto

lemma split_scan_none:
  "\<not> contains sep s \<Longrightarrow> split_scan sep acc s = [acc @ s]"
proof (induction s arbitrary: acc)
  case Nil
  then show ?case by simp
next
  case (Cons x xs)
  then show ?case by simp
qed

lemma prefix_first:
  assumes "sep \<noteq> []" and "\<not> contains sep ((x # a) @ butlast sep)"
  shows "\<not> prefix sep (x # a @ sep @ b)"
proof
  assume p: "prefix sep (x # a @ sep @ b)"
  have q: "prefix ((x # a) @ butlast sep) (x # a @ sep @ b)"
    using assms(1) by (simp add: prefix_def) (metis append_butlast_last_id append.assoc)
  have "length sep \<le> length ((x # a) @ butlast sep)" by simp
  with p q have "prefix sep ((x # a) @ butlast sep)" by (rule prefix_length_prefix)
  with assms(2) show False by simp
qed

lemma split_scan_first:
  "sep \<noteq> [] \<Longrightarrow> \<not> contains sep (a @ butlast sep) \<Longrightarrow>
   split_scan sep acc (a @ sep @ b) = (acc @ a) # split_scan sep [] b"
proof (induction a arbitrary: acc)
  case Nil
  then obtain y ys where "sep = y # ys" by (cases sep) auto
  then show ?case by simp
next
  case (Cons x a)
  from Cons.prems have np: "\<not> prefix sep (x # a @ sep @ b)" by (rule prefix_first)
  from Cons.prems(2) have "\<not> contains sep (a @ butlast sep)" by simp
  with Cons.IH [OF Cons.prems(1), of "acc @ [x]"] np show ?case by simp
qed

lemma split_scan_nonempty: "split_scan sep acc s \<noteq> []"
  by (induction sep acc s rule: split_scan.induct) auto


lemma hd_split_none: "\<not> contains sep s \<Longrightarrow> hd (split_py sep s) = s"
  by (simp add: split_py_def split_scan_none)

lemma hd_split_first:
  "sep \<noteq> [] \<Longrightarrow> \<not> contains sep (a @ butlast sep) \<Longrightarrow> hd (split_py sep (a @ sep @ b)) = a"
  by (simp add: split_py_def split_scan_first)

section \<open>The markers\<close>

lemma fence_nonempty: "fence \<noteq> []"
  by (simp add: fence_def ascii_def)

lemma tagged_nonempty: "tagged \<noteq> []"
  by (simp add: tagged_def ascii_def)

lemma tagged_fence: "tagged = fence @ ascii ''json''"
  by (simp add: tagged_def fence_def ascii_def)

lemma contains_tagged_fence: "contains tagged s \<Longrightarrow> contains fence s"
proof -
  have "contains fence tagged"
    using contains_append [of fence "[]" "ascii ''json''"] by (simp add: tagged_fence)
  then show "contains tagged s \<Longrightarrow> contains fence s" by (rule contains_trans)
qed

section \<open>The cleanup\<close>

lemma nth_py_0: "xs \<noteq> [] \<Longrightarrow> nth_py xs 0 = Inr (hd xs)"
  by (cases xs) (simp_all add: nth_py_def)

lemma nth_py_1: "ys \<noteq> [] \<Longrightarrow> nth_py (x # ys) (Suc 0) = Inr (hd ys)"
  by (cases ys) (simp_all add: nth_py_def)

lemma sanitize_tagged:
  assumes "\<not> contains tagged (pre @ butlast tagged)"
  shows "sanitize (pre @ tagged @ rest)
     = Inr (strip (hd (split_py fence (hd (split_py tagged rest)))))"
proof -
  have c: "contains tagged (pre @ tagged @ rest)" by (rule contains_append)
  have s: "split_py tagged (pre @ tagged @ rest) = pre # split_py tagged rest"
    using split_scan_first [OF tagged_nonempty assms, of "[]" rest] by (simp add: split_py_def)
  have n1: "split_py tagged rest \<noteq> []" by (simp add: split_py_def split_scan_nonempty)
  have n2: "split_py fence (hd (split_py tagged rest)) \<noteq> []"
    by (simp add: split_py_def split_scan_nonempty)
  show ?thesis
    by (simp add: sanitize_def c s nth_py_1 [OF n1] nth_py_0 [OF n2])
qed

lemma sanitize_total: "\<exists>t. sanitize content = Inr t"
proof (cases "contains tagged content")
  case True
  from first_occurrence [OF tagged_nonempty True]
  obtain a b where "content = a @ tagged @ b" "\<not> contains tagged (a @ butlast tagged)" by blast
  then show ?thesis using sanitize_tagged by blast
next
  case False
  then show ?thesis by (simp add: sanitize_def)
qed

lemma sanitize_unclosed:
  assumes "\<not> contains tagged (pre @ butlast tagged)" and "\<not> contains fence rest"
  shows "sanitize (pre @ tagged @ rest) = Inr (strip rest)"
proof -
  from assms(2) have "\<not> contains tagged rest" using contains_tagged_fence by blast
  then have "hd (split_py tagged rest) = rest" by (rule hd_split_none)
  moreover from assms(2) have "hd (split_py fence rest) = rest" by (rule hd_split_none)
  ultimately show ?thesis by (simp add: sanitize_tagged [OF assms(1)])
qed

lemma prefix_contains: "prefix sub t \<Longrightarrow> contains sub (a @ t)"
proof -
  assume "prefix sub t"
  then obtain v where "t = sub @ v" by (auto simp: prefix_def)
  then show ?thesis using contains_append [of sub a v] by simp
qed

lemma closing_fence_split:
  assumes eq: "mid @ fence @ post = a @ tagged @ b"
    and nf: "\<not> contains fence (mid @ butlast fence)"
    and p1: "\<not> prefix (ascii ''`json'') post"
    and p2: "\<not> prefix (ascii ''``json'') post"
  shows "a = mid \<or> (\<exists>c. a = mid @ fence @ c)"
proof -
  from eq have "\<exists>us. mid = a @ us \<and> us @ fence @ post = tagged @ b
      \<or> mid @ us = a \<and> fence @ post = us @ tagged @ b"
    by (rule append_eq_append_conv2 [THEN iffD1])
  then consider us where "mid = a @ us" "us @ fence @ post = tagged @ b"
    | us where "mid @ us = a" "fence @ post = us @ tagged @ b"
    by blast
  then show ?thesis
  proof cases
    case 1
    show ?thesis
    proof (cases us)
      case Nil
      with 1 show ?thesis by simp
    next
      case (Cons u us')
      have "prefix fence (us @ fence @ post)" using 1(2) by (simp add: tagged_fence)
      moreover have "prefix (us @ butlast fence) (us @ fence @ post)"
        by (simp add: fence_def ascii_def)
      moreover have "length fence \<le> length (us @ butlast fence)"
        using Cons by (simp add: fence_def ascii_def)
      ultimately have "prefix fence (us @ butlast fence)" by (rule prefix_length_prefix)
      then have "contains fence (a @ us @ butlast fence)" by (rule prefix_contains)
      with nf 1(1) show ?thesis by simp
    qed
  next
    case 2
    show ?thesis
    proof (cases us)
      case Nil
      with 2 show ?thesis by simp
    next
      case c1: (Cons u1 r1)
      show ?thesis
      proof (cases r1)
        case Nil
        with c1 2(2) p1 show ?thesis by (auto simp: fence_def tagged_def ascii_def)
      next
        case c2: (Cons u2 r2)
        show ?thesis
        proof (cases r2)
          case Nil
          with c1 c2 2(2) p2 show ?thesis by (auto simp: fence_def tagged_def ascii_def)
        next
          case c3: (Cons u3 r3)
          with c1 c2 2(2) have "us = fence @ r3" by (auto simp: fence_def ascii_def)
          with 2(1) show ?thesis by auto
        qed
      qed
    qed
  qed
qed

lemma sanitize_closed:
  assumes first: "\<not> contains tagged (pre @ butlast tagged)"
    and nf: "\<not> contains fence (mid @ butlast fence)"
    and p1: "\<not> prefix (ascii ''`json'') post"
    and p2: "\<not> prefix (ascii ''``json'') post"
  shows "sanitize (pre @ tagged @ mid @ fence @ post) = Inr (strip mid)"
proof -
  define rest where "rest = mid @ fence @ post"
  have "hd (split_py fence (hd (split_py tagged rest))) = mid"
  proof (cases "contains tagged rest")
    case False
    then have "hd (split_py tagged rest) = rest" by (rule hd_split_none)
    then show ?thesis
      using hd_split_first [OF fence_nonempty nf, of post] by (simp add: rest_def)
  next
    case True
    from first_occurrence [OF tagged_nonempty True]
    obtain a b where ab: "rest = a @ tagged @ b" "\<not> contains tagged (a @ butlast tagged)"
      by blast
    then have h: "hd (split_py tagged rest) = a"
      using hd_split_first [OF tagged_nonempty ab(2), of b] by simp
    from ab(1) have "mid @ fence @ post = a @ tagged @ b" by (simp add: rest_def)
    from closing_fence_split [OF this nf p1 p2]
    consider "a = mid" | c where "a = mid @ fence @ c" by blast
    then have "hd (split_py fence a) = mid"
    proof cases
      case 1
      have "\<not> contains fence mid"
      proof
        assume "contains fence mid"
        then have "contains fence ([] @ mid @ butlast fence)" by (rule contains_mono)
        with nf show False by simp
      qed
      with 1 show ?thesis by (simp add: hd_split_none)
    next
      case 2
      then show ?thesis using hd_split_first [OF fence_nonempty nf, of c] by simp
    qed
    with h show ?thesis by simp
  qed
  then show ?thesis using sanitize_tagged [OF first, of rest] by (simp add: rest_def)
qed

lemma sanitize_generic:
  "\<not> contains tagged content \<Longrightarrow> contains fence content \<Longrightarrow>
   sanitize content = Inr (strip (replace_py fence [] content))"
  by (simp add: sanitize_def)

lemma sanitize_raw: "\<not> contains fence content \<Longrightarrow> sanitize content = Inr content"
  using contains_tagged_fence by (auto simp: sanitize_def)

section \<open>replace\<close>

lemma prefix_fence_iff: "prefix fence s \<longleftrightarrow> 3 \<le> lead s"
proof (cases s)
  case Nil
  then show ?thesis by (simp add: fence_def ascii_def lead_def)
next
  case c1: (Cons a s1)
  show ?thesis
  proof (cases s1)
    case Nil
    with c1 show ?thesis by (simp add: fence_def ascii_def lead_def)
  next
    case c2: (Cons b s2)
    show ?thesis
    proof (cases s2)
      case Nil
      with c1 c2 show ?thesis by (simp add: fence_def ascii_def lead_def)
    next
      case (Cons c s3)
      with c1 c2 show ?thesis by (auto simp: fence_def ascii_def lead_def)
    qed
  qed
qed

lemma replace_fence_append: "replace_py fence [] (fence @ t) = replace_py fence [] t"
  by (simp add: fence_def ascii_def eval_nat_numeral)

lemma replace_other_step:
  "\<not> prefix fence (x # xs) \<Longrightarrow> replace_py fence [] (x # xs) = x # replace_py fence [] xs"
  by simp

lemma replace_fence_induct [case_names Nil Fence Other]:
  assumes "P []"
    and "\<And>t. P t \<Longrightarrow> P (fence @ t)"
    and "\<And>x xs. \<not> prefix fence (x # xs) \<Longrightarrow> P xs \<Longrightarrow> P (x # xs)"
  shows "P s"
proof (induction "length s" arbitrary: s rule: less_induct)
  case less
  show ?case
  proof (cases s)
    case Nil
    with assms(1) show ?thesis by simp
  next
    case (Cons x xs)
    show ?thesis
    proof (cases "prefix fence s")
      case True
      then obtain t where t: "s = fence @ t" by (auto simp: prefix_def)
      then have "length t < length s" by (simp add: fence_def ascii_def)
      then have "P t" by (rule less)
      then show ?thesis unfolding t by (rule assms(2))
    next
      case False
      have "P xs" using less [of xs] Cons by simp
      with False Cons show ?thesis using assms(3) by simp
    qed
  qed
qed

lemma lead_fence_append: "lead (fence @ t) = 3 + lead t"
  by (simp add: lead_def fence_def ascii_def)

lemma lead_replace: "lead (replace_py fence [] s) = lead s mod 3"
proof (induction s rule: replace_fence_induct)
  case Nil
  show ?case by (simp add: lead_def)
next
  case (Fence t)
  then show ?case by (simp only: replace_fence_append lead_fence_append) simp
next
  case (Other x xs)
  from Other(1) have lt: "lead (x # xs) < 3" by (simp add: prefix_fence_iff)
  have r: "replace_py fence [] (x # xs) = x # replace_py fence [] xs"
    using Other(1) by (rule replace_other_step)
  show ?case
  proof (cases "x = 96")
    case True
    with lt have "lead xs < 2" by (simp add: lead_def)
    with True Other(2) show ?thesis unfolding r by (simp add: lead_def)
  next
    case False
    then show ?thesis unfolding r by (simp add: lead_def)
  qed
qed

lemma replace_removes_all: "\<not> contains fence (replace_py fence [] s)"
proof (induction s rule: replace_fence_induct)
  case Nil
  show ?case by (simp add: fence_nonempty)
next
  case (Fence t)
  then show ?case by (simp add: replace_fence_append del: replace_py.simps)
next
  case (Other x xs)
  from Other(1) have lt: "lead (x # xs) < 3" by (simp add: prefix_fence_iff)
  have "lead (x # replace_py fence [] xs) < 3"
  proof (cases "x = 96")
    case True
    with lt have "lead xs < 2" by (simp add: lead_def)
    then have "lead (replace_py fence [] xs) < 2" by (simp add: lead_replace)
    with True show ?thesis by (simp add: lead_def)
  next
    case False
    then show ?thesis by (simp add: lead_def)
  qed
  then have "\<not> prefix fence (x # replace_py fence [] xs)" by (simp add: prefix_fence_iff)
  with Other(2) show ?case by (simp add: replace_other_step [OF Other(1)] del: replace_py.simps)
qed

lemma replace_keeps_text:
  "filter (\<lambda>c. c \<noteq> 96) (replace_py fence [] s) = filter (\<lambda>c. c \<noteq> 96) s"
proof (induction s rule: replace_fence_induct)
  case Nil
  show ?case by simp
next
  case (Fence t)
  have "filter (\<lambda>c. c \<noteq> 96) fence = []" by (simp add: fence_def ascii_def)
  with Fence show ?case by (simp only: replace_fence_append filter_append) simp
next
  case (Other x xs)
  then show ?case by (simp add: replace_other_step [OF Other(1)] del: replace_py.simps)
qed

lemma replace_subseq: "subseq (replace_py fence [] s) s"
proof (induction s rule: replace_fence_induct)
  case Nil
  show ?case by simp
next
  case (Fence t)
  then have "subseq (replace_py fence [] t) (fence @ t)" by (rule list_emb_append2)
  then show ?case by (simp only: replace_fence_append)
next
  case (Other x xs)
  then show ?case by (simp add: replace_other_step [OF Other(1)] del: replace_py.simps)
qed

text \<open>
  Claim C2, as amended. When the text has the form
  \<open>pre ```json mid ``` post\<close>, where the tagged marker shown is the first one and the
  fence shown is the first \<open>```\<close> after it, the text used is \<open>mid\<close> with surrounding
  whitespace stripped, whatever \<open>pre\<close> and \<open>post\<close> hold (stray fences included),
  provided \<open>post\<close> does not begin with \<open>`json\<close> or \<open>``json\<close>. Otherwise, when a \<open>```\<close>
  occurs, every marker is removed and the rest, stripped, is used. Otherwise the text is
  used unchanged.
\<close>

theorem C2_sanitize_paths:
  "(\<not> contains tagged (pre @ butlast tagged) \<and> \<not> contains fence (mid @ butlast fence)
      \<and> \<not> prefix (ascii ''`json'') post \<and> \<not> prefix (ascii ''``json'') post
      \<longrightarrow> sanitize (pre @ tagged @ mid @ fence @ post) = Inr (strip mid))
   \<and> (\<not> contains tagged content \<and> contains fence content
      \<longrightarrow> sanitize content = Inr (strip (replace_py fence [] content))
        \<and> \<not> contains fence (replace_py fence [] content))
   \<and> (\<not> contains tagged content \<and> \<not> contains fence content
      \<longrightarrow> sanitize content = Inr content)"
  using sanitize_closed [of pre mid post] sanitize_generic [of content]
    replace_removes_all [of content] sanitize_raw [of content]
  by blast

theorem C2_sanitize_paths_witness:
  "(\<not> contains tagged (ascii ''Sure: ``` '' @ butlast tagged)
      \<and> \<not> contains fence (ascii '' {} '' @ butlast fence)
      \<and> \<not> prefix (ascii ''`json'') (ascii '' done ```'')
      \<and> \<not> prefix (ascii ''``json'') (ascii '' done ```'')
      \<and> sanitize (ascii ''Sure: ``` ```json {} ``` done ```'') = Inr (ascii ''{}''))
   \<and> (\<not> contains tagged (ascii ''``` {} ``` ok'') \<and> contains fence (ascii ''``` {} ``` ok'')
      \<and> sanitize (ascii ''``` {} ``` ok'') = Inr (ascii ''{}  ok''))
   \<and> (\<not> contains tagged (ascii ''{}'') \<and> \<not> contains fence (ascii ''{}'')
      \<and> sanitize (ascii ''{}'') = Inr (ascii ''{}''))"
proof -
  have a: "\<not> contains tagged (ascii ''Sure: ``` '' @ butlast tagged)"
    by (simp add: tagged_def ascii_def)
  have b: "\<not> contains fence (ascii '' {} '' @ butlast fence)"
    by (simp add: fence_def ascii_def)
  have c: "\<not> prefix (ascii ''`json'') (ascii '' done ```'')"
    by (simp add: ascii_def)
  have d: "\<not> prefix (ascii ''``json'') (ascii '' done ```'')"
    by (simp add: ascii_def)
  have e: "ascii ''Sure: ``` ```json {} ``` done ```''
      = ascii ''Sure: ``` '' @ tagged @ ascii '' {} '' @ fence @ ascii '' done ```''"
    by (simp add: tagged_def fence_def ascii_def)
  have f: "strip (ascii '' {} '') = ascii ''{}''"
    by (simp add: strip_def isspace_def ascii_def)
  have g: "\<not> contains tagged (ascii ''``` {} ``` ok'')"
    by (simp add: tagged_def ascii_def)
  have h: "contains fence (ascii ''``` {} ``` ok'')"
    by (simp add: fence_def ascii_def)
  have i: "strip (replace_py fence [] (ascii ''``` {} ``` ok'')) = ascii ''{}  ok''"
    by (simp add: fence_def strip_def isspace_def ascii_def)
  have j: "\<not> contains tagged (ascii ''{}'')" by (simp add: tagged_def ascii_def)
  have k: "\<not> contains fence (ascii ''{}'')" by (simp add: fence_def ascii_def)
  show ?thesis
    using C2_sanitize_paths [of "ascii ''Sure: ``` ''" "ascii '' {} ''" "ascii '' done ```''"
        "ascii ''``` {} ``` ok''"]
      C2_sanitize_paths [of "[]" "[]" "[]" "ascii ''{}''"]
      a b c d e f g h i j k
    by simp
qed

theorem C2_between_counterexample:
  "\<not> contains tagged ([] @ butlast tagged)
   \<and> \<not> contains fence (ascii ''X'' @ butlast fence)
   \<and> sanitize ([] @ tagged @ ascii ''X'' @ fence @ ascii ''`json'') = Inr (ascii ''X`'')
   \<and> ascii ''X`'' \<noteq> ascii ''X''
   \<and> ascii ''X`'' \<noteq> strip (ascii ''X'')"
  by (simp add: sanitize_def tagged_def fence_def ascii_def nth_py_def split_py_def strip_def
      isspace_def)

text \<open>
  Claim C10. The cleanup always returns a string. When the first tagged marker is
  followed by no \<open>```\<close> at all, the whole remainder after it, stripped, is used. When
  only generic markers occur, the text used is the stripped result of removing them: no
  marker is left in it, and it is the input with backticks deleted and every other
  character kept in place.
\<close>

theorem C10_sanitize_total:
  "(\<exists>t. sanitize content = Inr t)
   \<and> (\<not> contains tagged (pre @ butlast tagged) \<and> \<not> contains fence rest
      \<longrightarrow> sanitize (pre @ tagged @ rest) = Inr (strip rest))
   \<and> (\<not> contains tagged content \<and> contains fence content
      \<longrightarrow> sanitize content = Inr (strip (replace_py fence [] content))
        \<and> \<not> contains fence (replace_py fence [] content)
        \<and> subseq (replace_py fence [] content) content
        \<and> filter (\<lambda>c. c \<noteq> 96) (replace_py fence [] content) = filter (\<lambda>c. c \<noteq> 96) content)"
  using sanitize_total [of content] sanitize_unclosed [of pre rest] sanitize_generic [of content]
    replace_removes_all [of content] replace_subseq [of content] replace_keeps_text [of content]
  by blast

theorem C10_sanitize_total_witness:
  "(\<not> contains tagged (ascii ''Here: '' @ butlast tagged) \<and> \<not> contains fence (ascii '' {} '')
      \<and> sanitize (ascii ''Here: ```json {} '') = Inr (ascii ''{}''))
   \<and> (\<not> contains tagged (ascii ''The ```invoice``` reads {}'')
      \<and> contains fence (ascii ''The ```invoice``` reads {}'')
      \<and> sanitize (ascii ''The ```invoice``` reads {}'') = Inr (ascii ''The invoice reads {}''))"
proof -
  have a: "\<not> contains tagged (ascii ''Here: '' @ butlast tagged)"
    by (simp add: tagged_def ascii_def)
  have b: "\<not> contains fence (ascii '' {} '')" by (simp add: fence_def ascii_def)
  have c: "ascii ''Here: ```json {} '' = ascii ''Here: '' @ tagged @ ascii '' {} ''"
    by (simp add: tagged_def ascii_def)
  have d: "strip (ascii '' {} '') = ascii ''{}''"
    by (simp add: strip_def isspace_def ascii_def)
  have e: "\<not> contains tagged (ascii ''The ```invoice``` reads {}'')"
    by (simp add: tagged_def ascii_def)
  have f: "contains fence (ascii ''The ```invoice``` reads {}'')"
    by (simp add: fence_def ascii_def)
  have g: "strip (replace_py fence [] (ascii ''The ```invoice``` reads {}''))
      = ascii ''The invoice reads {}''"
    by (simp add: fence_def strip_def isspace_def ascii_def)
  show ?thesis
    using C10_sanitize_total [of "ascii ''The ```invoice``` reads {}''" "ascii ''Here: ''"
        "ascii '' {} ''"] a b c d e f g
    by simp
qed

section \<open>The upload pipeline\<close>

lemma normalize_events:
  "normalize_document env b c = (r, evs) \<Longrightarrow> evs = [] \<or> evs = [PdfConvert] \<or> evs = [ImageOpen]"
  by (auto simp: normalize_document_def split: option.splits if_splits sum.splits list.splits)

lemma upload_named:
  assumes "upload_filename file = Some fname" and "fname \<noteq> []"
  shows "upload_invoice env d file =
     (case upload_try env d fname (read file) (content_type file) of
        (Inr r, d', evs) \<Rightarrow> (Inr r, d', evs)
      | (Inl e, d', evs) \<Rightarrow>
          (Inl (HTTPException 500 (ascii ''Internal Server Error: '' @ str_exn env e)), d', evs))"
  using assms by (simp add: upload_invoice_def)

lemma upload_unnamed:
  assumes "upload_filename file = None \<or> upload_filename file = Some []"
  shows "upload_invoice env d file
     = (Inl (HTTPException 400 (ascii ''No filename provided'')), d, [])"
  using assms by (auto simp: upload_invoice_def)

lemma upload_normalize_fails:
  assumes "upload_filename file = Some fname" and "fname \<noteq> []"
    and "normalize_document env (read file) (content_type file) = (Inl e, evs)"
  shows "upload_invoice env d file =
     (Inl (HTTPException 500 (ascii ''Internal Server Error: '' @ str_exn env e)), d, evs)"
  using assms by (simp add: upload_named upload_try_def)

lemma upload_process_fails:
  assumes "upload_filename file = Some fname" and "fname \<noteq> []"
    and "normalize_document env (read file) (content_type file) = (Inr img, evs)"
    and "process_invoice_with_vllm env img = Inl e"
  shows "upload_invoice env d file =
     (Inl (HTTPException 500 (ascii ''Internal Server Error: '' @ str_exn env e)), d,
      evs @ [ModelCall])"
  using assms by (simp add: upload_named upload_try_def)

lemma upload_succeeds:
  assumes "upload_filename file = Some fname" and "fname \<noteq> []"
    and "normalize_document env (read file) (content_type file) = (Inr img, evs)"
    and "process_invoice_with_vllm env img = Inr x"
  shows "upload_invoice env d file =
     (Inr \<lparr>message = ascii ''Success'', log_id = next_id d, data = x\<rparr>,
      d\<lparr>rows := rows d @
           [\<lparr>id' = next_id d, filename = fname, file_content = read file,
             extracted_schema_content = model_dump x, created_at = now d\<rparr>],
         next_id := next_id d + 1\<rparr>,
      evs @ [ModelCall, DbInsert])"
  using assms by (simp add: upload_named upload_try_def create_invoice_log_def Let_def)

text \<open>Every run of \<open>upload_invoice\<close> is one of the four above.\<close>

lemma upload_cases:
  obtains (unnamed) "upload_filename up = None \<or> upload_filename up = Some []"
  | (normalize_fails) fname e evs where "upload_filename up = Some fname" "fname \<noteq> []"
      "normalize_document env (read up) (content_type up) = (Inl e, evs)"
  | (process_fails) fname img evs e where "upload_filename up = Some fname" "fname \<noteq> []"
      "normalize_document env (read up) (content_type up) = (Inr img, evs)"
      "process_invoice_with_vllm env img = Inl e"
  | (succeeds) fname img evs x where "upload_filename up = Some fname" "fname \<noteq> []"
      "normalize_document env (read up) (content_type up) = (Inr img, evs)"
      "process_invoice_with_vllm env img = Inr x"
proof (cases "upload_filename up")
  case None
  then show ?thesis using unnamed by simp
next
  case (Some fname)
  show ?thesis
  proof (cases "fname = []")
    case True
    with Some show ?thesis using unnamed by simp
  next
    case False
    obtain r evs where n: "normalize_document env (read up) (content_type up) = (r, evs)"
      by (cases "normalize_document env (read up) (content_type up)")
    show ?thesis
    proof (cases r)
      case (Inl e)
      with Some False n show ?thesis using normalize_fails by simp
    next
      case (Inr img)
      show ?thesis
      proof (cases "process_invoice_with_vllm env img")
        case (Inl e)
        with Some False n Inr show ?thesis using process_fails by simp
      next
        case r2: (Inr x)
        with Some False n Inr show ?thesis using succeeds by simp
      qed
    qed
  qed
qed

lemma upload_failure_keeps_db:
  assumes "upload_invoice env d file = (Inl e, d', evs)"
  shows "d' = d \<and> DbInsert \<notin> set evs"
proof (cases rule: upload_cases [where up = "file" and env = env])
  case unnamed
  from upload_unnamed [OF this, of env d] assms show ?thesis by simp
next
  case (normalize_fails fname e0 evs0)
  from upload_normalize_fails [OF this, of d] assms normalize_events [OF normalize_fails(3)]
  show ?thesis by auto
next
  case (process_fails fname img evs0 e0)
  from upload_process_fails [OF this, of d] assms normalize_events [OF process_fails(3)]
  show ?thesis by auto
next
  case (succeeds fname img evs0 x)
  from upload_succeeds [OF this, of d] assms show ?thesis by simp
qed

lemma upload_success_origin:
  assumes "upload_invoice env d file = (Inr resp, d', evs)"
  shows "\<exists>fname img evs0. upload_filename file = Some fname \<and> fname \<noteq> []
     \<and> normalize_document env (read file) (content_type file) = (Inr img, evs0)
     \<and> process_invoice_with_vllm env img = Inr (data resp)
     \<and> log_id resp = next_id d
     \<and> d' = d\<lparr>rows := rows d @
           [\<lparr>id' = next_id d, filename = fname, file_content = read file,
             extracted_schema_content = model_dump (data resp), created_at = now d\<rparr>],
         next_id := next_id d + 1\<rparr>
     \<and> evs = evs0 @ [ModelCall, DbInsert]"
proof (cases rule: upload_cases [where up = "file" and env = env])
  case unnamed
  from upload_unnamed [OF this, of env d] assms show ?thesis by simp
next
  case (normalize_fails fname e0 evs0)
  from upload_normalize_fails [OF this, of d] assms show ?thesis by simp
next
  case (process_fails fname img evs0 e0)
  from upload_process_fails [OF this, of d] assms show ?thesis by simp
next
  case (succeeds fname img evs0 x)
  from upload_succeeds [OF this, of d] assms succeeds show ?thesis by auto
qed

lemma upload_stage_failure:
  assumes "normalize_document env (read file) (content_type file) = (Inl e0, evs0)
     \<or> (normalize_document env (read file) (content_type file) = (Inr img, evs0)
         \<and> process_invoice_with_vllm env img = Inl e0)"
  shows "\<exists>c m evs. upload_invoice env d file = (Inl (HTTPException c m), d, evs)"
proof (cases rule: upload_cases [where up = "file" and env = env])
  case unnamed
  from upload_unnamed [OF this, of env d] show ?thesis by blast
next
  case (normalize_fails fname e1 evs1)
  from upload_normalize_fails [OF this, of d] show ?thesis by blast
next
  case (process_fails fname img1 evs1 e1)
  from upload_process_fails [OF this, of d] show ?thesis by blast
next
  case (succeeds fname img1 evs1 x)
  with assms show ?thesis by auto
qed

section \<open>The extraction\<close>

lemma process_success_origin:
  assumes "process_invoice_with_vllm env img = Inr x"
  shows "\<exists>b64 result content t j. encode_image_to_base64 env img = Inr b64
     \<and> post_json env (payload env b64) = Inr result
     \<and> get_content result = Inr (JStr content)
     \<and> sanitize content = Inr t
     \<and> json_loads env t = Inr j
     \<and> model_validate j = Inr x"
  using assms
  by (auto simp: process_invoice_with_vllm_def process_try_def
      split: sum.splits json.splits jexn.splits if_splits)

lemma process_try_parse_fails:
  assumes "post_json env p = Inr result" and "get_content result = Inr (JStr content)"
    and "sanitize content = Inr t" and "json_loads env t = Inl JSONDecodeError"
  shows "process_try env p
     = Inl (ValueError (ascii ''Model did not return valid JSON: '' @ t))"
  using assms by (simp add: process_try_def)

lemma process_parse_fails:
  assumes "encode_image_to_base64 env img = Inr b64"
    and "post_json env (payload env b64) = Inr result"
    and "get_content result = Inr (JStr content)"
    and "sanitize content = Inr t" and "json_loads env t = Inl JSONDecodeError"
  shows "process_invoice_with_vllm env img
     = Inl (RuntimeError (ascii ''Processing error: Model did not return valid JSON: '' @ t))"
  using assms process_try_parse_fails [OF assms(2-5)]
  by (simp add: process_invoice_with_vllm_def is_RequestError_def str_exn_def ascii_def)

lemma process_validation_fails:
  assumes "encode_image_to_base64 env img = Inr b64"
    and "post_json env (payload env b64) = Inr result"
    and "get_content result = Inr (JStr content)"
    and "sanitize content = Inr t" and "json_loads env t = Inr j"
    and "model_validate j = Inl ve"
  shows "process_invoice_with_vllm env img
     = Inl (RuntimeError (ascii ''Processing error: '' @ str_exn env ve))"
proof -
  from assms(6) obtain es where "ve = ValidationError es"
    by (auto simp: model_validate_def split: sum.splits)
  then have "\<not> is_RequestError ve" by (simp add: is_RequestError_def)
  moreover have "process_try env (payload env b64) = Inl ve"
    using assms(2-6) by (simp add: process_try_def)
  ultimately show ?thesis using assms(1) by (simp add: process_invoice_with_vllm_def)
qed


section \<open>Claims about the upload\<close>

text \<open>
  Claim C3. A failed upload leaves the table as it was and makes no insert. When the
  normalization fails, or the extraction fails on the normalized image, the upload fails
  with an \<open>HTTPException\<close>. When the text does not parse or the parsed object does not
  validate, the extraction fails. A successful upload returns the record that
  \<open>model_validate\<close> produced from the parsed text of the model, never another one.
\<close>

theorem C3_all_or_nothing:
  "(upload_invoice env d file = (Inl e, d', evs) \<longrightarrow> d' = d \<and> DbInsert \<notin> set evs)
   \<and> (normalize_document env (read file) (content_type file) = (Inl e0, evs0)
        \<or> (normalize_document env (read file) (content_type file) = (Inr img, evs0)
            \<and> process_invoice_with_vllm env img = Inl e0)
      \<longrightarrow> (\<exists>c m evs1. upload_invoice env d file = (Inl (HTTPException c m), d, evs1)))
   \<and> (encode_image_to_base64 env img = Inr b64 \<and> post_json env (payload env b64) = Inr result
        \<and> get_content result = Inr (JStr content) \<and> sanitize content = Inr t
        \<and> (json_loads env t = Inl je \<or> (json_loads env t = Inr j \<and> model_validate j = Inl ve))
      \<longrightarrow> (\<exists>m. process_invoice_with_vllm env img = Inl (RuntimeError m)))
   \<and> (upload_invoice env d file = (Inr resp, d', evs)
      \<longrightarrow> (\<exists>img1 evs1 b1 result1 content1 t1 j1.
            normalize_document env (read file) (content_type file) = (Inr img1, evs1)
            \<and> encode_image_to_base64 env img1 = Inr b1
            \<and> post_json env (payload env b1) = Inr result1
            \<and> get_content result1 = Inr (JStr content1)
            \<and> sanitize content1 = Inr t1
            \<and> json_loads env t1 = Inr j1
            \<and> model_validate j1 = Inr (data resp)))"
proof (intro conjI impI)
  assume "upload_invoice env d file = (Inl e, d', evs)"
  then show "d' = d" "DbInsert \<notin> set evs" using upload_failure_keeps_db by blast+
next
  assume "normalize_document env (read file) (content_type file) = (Inl e0, evs0)
      \<or> (normalize_document env (read file) (content_type file) = (Inr img, evs0)
          \<and> process_invoice_with_vllm env img = Inl e0)"
  then show "\<exists>c m evs1. upload_invoice env d file = (Inl (HTTPException c m), d, evs1)"
    by (rule upload_stage_failure)
next
  assume a: "encode_image_to_base64 env img = Inr b64 \<and> post_json env (payload env b64) = Inr result
      \<and> get_content result = Inr (JStr content) \<and> sanitize content = Inr t
      \<and> (json_loads env t = Inl je \<or> (json_loads env t = Inr j \<and> model_validate j = Inl ve))"
  show "\<exists>m. process_invoice_with_vllm env img = Inl (RuntimeError m)"
  proof (cases "process_invoice_with_vllm env img")
    case (Inl x)
    then show ?thesis
      by (auto simp: process_invoice_with_vllm_def split: sum.splits if_splits)
        (use a in simp)
  next
    case (Inr x)
    from process_success_origin [OF this] a show ?thesis by auto
  qed
next
  assume "upload_invoice env d file = (Inr resp, d', evs)"
  from upload_success_origin [OF this] obtain img1 evs1 where
    n: "normalize_document env (read file) (content_type file) = (Inr img1, evs1)"
    and p: "process_invoice_with_vllm env img1 = Inr (data resp)" by blast
  from process_success_origin [OF p] n
  show "\<exists>img1 evs1 b1 result1 content1 t1 j1.
      normalize_document env (read file) (content_type file) = (Inr img1, evs1)
      \<and> encode_image_to_base64 env img1 = Inr b1
      \<and> post_json env (payload env b1) = Inr result1
      \<and> get_content result1 = Inr (JStr content1)
      \<and> sanitize content1 = Inr t1
      \<and> json_loads env t1 = Inr j1
      \<and> model_validate j1 = Inr (data resp)" by blast
qed


section \<open>Runs in the simulated environment\<close>

lemma sim_encode: "encode_image_to_base64 (sim_env reply) img = Inr (map unat img)"
  by (simp add: encode_image_to_base64_def sim_env_def)

lemma sim_get_content:
  "post_json (sim_env reply) p = Inr (JObj [(ascii ''choices'',
      JArr [JObj [(ascii ''message'', JObj [(ascii ''content'', JStr reply)])]])])"
  "get_content (JObj [(ascii ''choices'',
      JArr [JObj [(ascii ''message'', JObj [(ascii ''content'', JStr reply)])]])])
    = Inr (JStr reply)"
  by (simp_all add: sim_env_def get_content_def getitem_key_def getitem_0_def)

lemma sim_sanitize:
  "sanitize (ascii ''<minimal>'') = Inr (ascii ''<minimal>'')"
  "sanitize (ascii ''not json'') = Inr (ascii ''not json'')"
  by (simp_all add: sanitize_def tagged_def fence_def ascii_def)

lemma sim_loads:
  "json_loads (sim_env reply) (ascii ''<minimal>'') = Inr (JObj minimal_object)"
  "json_loads (sim_env reply) (ascii ''not json'') = Inl JSONDecodeError"
  by (simp_all add: sim_env_def ascii_def)

lemma sim_process_ok:
  "process_invoice_with_vllm (sim_env (ascii ''<minimal>'')) img = Inr minimal_record"
  by (simp add: process_invoice_with_vllm_def process_try_def sim_encode sim_get_content
      sim_sanitize sim_loads validate_minimal)

lemma sim_process_bad:
  "process_invoice_with_vllm (sim_env (ascii ''not json'')) img
     = Inl (RuntimeError (ascii ''Processing error: Model did not return valid JSON: not json''))"
  using process_parse_fails [OF sim_encode sim_get_content(1) sim_get_content(2)
      sim_sanitize(2) sim_loads(2)]
  by (simp add: ascii_def)

lemma sim_normalize_jpeg:
  "normalize_document (sim_env reply) (read jpeg_upload) (content_type jpeg_upload)
     = (Inr [0xFF, 0xD8, 0x01], [ImageOpen])"
  by (simp add: normalize_document_def jpeg_upload_def sim_env_def ascii_def)

lemma sim_normalize_pdf:
  "normalize_document (sim_env reply) (read pdf_upload) (content_type pdf_upload)
     = (Inr [0xFF, 0xD8, 0x01], [PdfConvert])"
  by (simp add: normalize_document_def pdf_to_images_def pdf_upload_def sim_env_def ascii_def)

lemma sim_upload_bad:
  "upload_invoice (sim_env (ascii ''not json'')) empty_db jpeg_upload
     = (Inl (HTTPException 500 (ascii
          ''Internal Server Error: Processing error: Model did not return valid JSON: not json'')),
        empty_db, [ImageOpen, ModelCall])"
proof -
  have "upload_filename jpeg_upload = Some (ascii ''a.jpg'')" "ascii ''a.jpg'' \<noteq> []"
    by (simp_all add: jpeg_upload_def ascii_def)
  from upload_process_fails [OF this sim_normalize_jpeg sim_process_bad, of empty_db]
  show ?thesis by (simp add: str_exn_def ascii_def)
qed

lemma sim_upload_jpeg:
  "upload_invoice (sim_env (ascii ''<minimal>'')) empty_db jpeg_upload
     = (Inr \<lparr>message = ascii ''Success'', log_id = 1, data = minimal_record\<rparr>,
        \<lparr>rows = [stored_row (ascii ''a.jpg'') [0xFF, 0xD8, 0x01]], next_id = 2, now = 0\<rparr>,
        [ImageOpen, ModelCall, DbInsert])"
proof -
  have "upload_filename jpeg_upload = Some (ascii ''a.jpg'')" "ascii ''a.jpg'' \<noteq> []"
    by (simp_all add: jpeg_upload_def ascii_def)
  from upload_succeeds [OF this sim_normalize_jpeg sim_process_ok, of empty_db]
  show ?thesis by (simp add: empty_db_def stored_row_def jpeg_upload_def)
qed

lemma sim_upload_pdf:
  "upload_invoice (sim_env (ascii ''<minimal>'')) empty_db pdf_upload
     = (Inr \<lparr>message = ascii ''Success'', log_id = 1, data = minimal_record\<rparr>,
        \<lparr>rows = [stored_row (ascii ''two.pdf'') [0x25, 0x50, 0x44, 0x46, 0x01, 0x02]],
         next_id = 2, now = 0\<rparr>,
        [PdfConvert, ModelCall, DbInsert])"
proof -
  have "upload_filename pdf_upload = Some (ascii ''two.pdf'')" "ascii ''two.pdf'' \<noteq> []"
    by (simp_all add: pdf_upload_def ascii_def)
  from upload_succeeds [OF this sim_normalize_pdf sim_process_ok, of empty_db]
  show ?thesis by (simp add: empty_db_def stored_row_def pdf_upload_def)
qed

theorem C3_all_or_nothing_witness:
  "upload_invoice (sim_env (ascii ''not json'')) empty_db jpeg_upload
     = (Inl (HTTPException 500 (ascii
          ''Internal Server Error: Processing error: Model did not return valid JSON: not json'')),
        empty_db, [ImageOpen, ModelCall])
   \<and> DbInsert \<notin> set [ImageOpen, ModelCall]
   \<and> json_loads (sim_env (ascii ''not json'')) (ascii ''not json'') = Inl JSONDecodeError
   \<and> (\<exists>m. process_invoice_with_vllm (sim_env (ascii ''not json'')) [0xFF, 0xD8, 0x01]
          = Inl (RuntimeError m))
   \<and> upload_invoice (sim_env (ascii ''<minimal>'')) empty_db jpeg_upload
     = (Inr \<lparr>message = ascii ''Success'', log_id = 1, data = minimal_record\<rparr>,
        \<lparr>rows = [stored_row (ascii ''a.jpg'') [0xFF, 0xD8, 0x01]], next_id = 2, now = 0\<rparr>,
        [ImageOpen, ModelCall, DbInsert])
   \<and> (\<exists>t j. json_loads (sim_env (ascii ''<minimal>'')) t = Inr j
          \<and> model_validate j = Inr minimal_record)
   \<and> normalize_document (sim_env []) (read text_upload) (content_type text_upload)
     = (Inl (HTTPException 400 (ascii ''Unsupported file type. Use PDF or Image.'')), [])
   \<and> (\<exists>c m evs1. upload_invoice (sim_env []) empty_db text_upload
          = (Inl (HTTPException c m), empty_db, evs1))"
proof -
  note bad = C3_all_or_nothing [of "sim_env (ascii ''not json'')" empty_db jpeg_upload
      "HTTPException 500 (ascii
        ''Internal Server Error: Processing error: Model did not return valid JSON: not json'')"
      empty_db "[ImageOpen, ModelCall]" _ _ "[0xFF, 0xD8, 0x01]" "map unat [0xFF, 0xD8, 0x01]"
      "JObj [(ascii ''choices'',
        JArr [JObj [(ascii ''message'', JObj [(ascii ''content'', JStr (ascii ''not json''))])]])]"
      "ascii ''not json''" "ascii ''not json''" JSONDecodeError]
  note good = C3_all_or_nothing [of "sim_env (ascii ''<minimal>'')" empty_db jpeg_upload _
      "\<lparr>rows = [stored_row (ascii ''a.jpg'') [0xFF, 0xD8, 0x01]], next_id = 2, now = 0\<rparr>"
      "[ImageOpen, ModelCall, DbInsert]" _ _ _ _ _ _ _ _ _ _
      "\<lparr>message = ascii ''Success'', log_id = 1, data = minimal_record\<rparr>"]
  have p1: "DbInsert \<notin> set [ImageOpen, ModelCall]"
    using bad sim_upload_bad by blast
  have p2: "\<exists>m. process_invoice_with_vllm (sim_env (ascii ''not json'')) [0xFF, 0xD8, 0x01]
      = Inl (RuntimeError m)"
    using bad sim_encode [of "ascii ''not json''" "[0xFF, 0xD8, 0x01]"]
      sim_get_content [of "ascii ''not json''"] sim_sanitize(2) sim_loads(2)
    by blast
  have p3: "\<exists>t j. json_loads (sim_env (ascii ''<minimal>'')) t = Inr j
      \<and> model_validate j = Inr minimal_record"
    using good sim_upload_jpeg by (simp only: upload_response.simps) blast
  have n: "normalize_document (sim_env []) (read text_upload) (content_type text_upload)
      = (Inl (HTTPException 400 (ascii ''Unsupported file type. Use PDF or Image.'')), [])"
    by (simp add: normalize_document_def text_upload_def ascii_def)
  have p4: "\<exists>c m evs1. upload_invoice (sim_env []) empty_db text_upload
      = (Inl (HTTPException c m), empty_db, evs1)"
    using C3_all_or_nothing [of "sim_env []" empty_db text_upload _ _ _
        "HTTPException 400 (ascii ''Unsupported file type. Use PDF or Image.'')" "[]"] n
    by blast
  from p1 p2 p3 p4 n sim_upload_bad sim_upload_jpeg sim_loads(2) show ?thesis by blast
qed

section \<open>Rejected uploads\<close>



lemma normalize_pdf_first:
  assumes "contains (ascii ''application/pdf'') ct"
    and "convert_from_bytes env b = Inr (p1 # ps)"
  shows "normalize_document env b (Some ct) = (Inr p1, [PdfConvert])"
  using assms by (simp add: normalize_document_def pdf_to_images_def)

text \<open>A content type that was not declared fails on the first test, before any call.\<close>

lemma normalize_undeclared: "normalize_document env b None = (Inl (TypeError []), [])"
  by (simp add: normalize_document_def)




section \<open>The stored bytes\<close>

lemma find_appended:
  assumes "\<forall>y \<in> set xs. \<not> P y" and "P x"
  shows "find P (xs @ [x]) = Some x"
  using assms by (induction xs) simp_all

lemma lookup_new_row:
  assumes "db_ok d"
  shows "get_invoice_log_by_id
      (d\<lparr>rows := rows d @ [r\<lparr>id' := next_id d\<rparr>], next_id := next_id d + 1\<rparr>) (next_id d)
     = Some (r\<lparr>id' := next_id d\<rparr>)"
proof -
  from assms have "\<forall>y \<in> set (rows d). \<not> id' y = next_id d"
    by (auto simp: db_ok_def list_all_iff)
  then show ?thesis by (simp add: get_invoice_log_by_id_def find_appended)
qed

text \<open>
  Claim C7. A successful upload appends exactly one row; its \<open>file_content\<close> is the
  uploaded bytes, its file name the uploaded name, its identity the one returned and its
  structured content the serialization of the returned record; on a table whose
  identities came from the sequence, looking that identity up returns the row. In
  particular a document of two or more pages is extracted from its first page, and the
  row holds the bytes of the whole document.
\<close>

theorem C7_stored_bytes:
  "(upload_invoice env d file = (Inr resp, d', evs)
      \<longrightarrow> (\<exists>r. rows d' = rows d @ [r] \<and> file_content r = read file
            \<and> upload_filename file = Some (InvoiceLog.filename r)
            \<and> id' r = log_id resp
            \<and> extracted_schema_content r = model_dump (data resp)
            \<and> (db_ok d \<longrightarrow> get_invoice_log_by_id d' (log_id resp) = Some r)))
   \<and> (upload_filename file = Some fname \<and> fname \<noteq> [] \<and> content_type file = Some ct
        \<and> contains (ascii ''application/pdf'') ct
        \<and> convert_from_bytes env (read file) = Inr (p1 # p2 # ps)
        \<and> process_invoice_with_vllm env p1 = Inr x
      \<longrightarrow> (\<exists>r d1. upload_invoice env d file
              = (Inr \<lparr>message = ascii ''Success'', log_id = id' r, data = x\<rparr>, d1,
                 [PdfConvert, ModelCall, DbInsert])
            \<and> rows d1 = rows d @ [r] \<and> file_content r = read file))"
proof (intro conjI impI)
  assume "upload_invoice env d file = (Inr resp, d', evs)"
  from upload_success_origin [OF this] obtain fname where
    f: "upload_filename file = Some fname" and l: "log_id resp = next_id d"
    and d': "d' = d\<lparr>rows := rows d @
           [\<lparr>id' = next_id d, filename = fname, file_content = read file,
             extracted_schema_content = model_dump (data resp), created_at = now d\<rparr>],
         next_id := next_id d + 1\<rparr>" by blast
  define r where "r = \<lparr>id' = next_id d, filename = fname, file_content = read file,
      extracted_schema_content = model_dump (data resp), created_at = now d\<rparr>"
  have "db_ok d \<longrightarrow> get_invoice_log_by_id d' (log_id resp) = Some r"
    using lookup_new_row [of d r] by (simp add: d' l r_def)
  then have "rows d' = rows d @ [r] \<and> file_content r = read file
      \<and> upload_filename file = Some (InvoiceLog.filename r)
      \<and> id' r = log_id resp
      \<and> extracted_schema_content r = model_dump (data resp)
      \<and> (db_ok d \<longrightarrow> get_invoice_log_by_id d' (log_id resp) = Some r)"
    by (simp add: d' f l r_def)
  then show "\<exists>r. rows d' = rows d @ [r] \<and> file_content r = read file
      \<and> upload_filename file = Some (InvoiceLog.filename r)
      \<and> id' r = log_id resp
      \<and> extracted_schema_content r = model_dump (data resp)
      \<and> (db_ok d \<longrightarrow> get_invoice_log_by_id d' (log_id resp) = Some r)" by blast
next
  assume a: "upload_filename file = Some fname \<and> fname \<noteq> [] \<and> content_type file = Some ct
      \<and> contains (ascii ''application/pdf'') ct
      \<and> convert_from_bytes env (read file) = Inr (p1 # p2 # ps)
      \<and> process_invoice_with_vllm env p1 = Inr x"
  then have n: "normalize_document env (read file) (content_type file) = (Inr p1, [PdfConvert])"
    by (simp add: normalize_pdf_first)
  from a have f: "upload_filename file = Some fname" "fname \<noteq> []"
    and p: "process_invoice_with_vllm env p1 = Inr x" by simp_all
  define r where "r = \<lparr>id' = next_id d, filename = fname, file_content = read file,
      extracted_schema_content = model_dump x, created_at = now d\<rparr>"
  from upload_succeeds [OF f n p, of d]
  have "upload_invoice env d file
      = (Inr \<lparr>message = ascii ''Success'', log_id = id' r, data = x\<rparr>,
         d\<lparr>rows := rows d @ [r], next_id := next_id d + 1\<rparr>,
         [PdfConvert, ModelCall, DbInsert])
      \<and> rows (d\<lparr>rows := rows d @ [r], next_id := next_id d + 1\<rparr>) = rows d @ [r]
      \<and> file_content r = read file"
    by (simp add: r_def)
  then show "\<exists>r d1. upload_invoice env d file
      = (Inr \<lparr>message = ascii ''Success'', log_id = id' r, data = x\<rparr>, d1,
         [PdfConvert, ModelCall, DbInsert])
      \<and> rows d1 = rows d @ [r] \<and> file_content r = read file" by blast
qed

theorem C7_stored_bytes_witness:
  "upload_invoice (sim_env (ascii ''<minimal>'')) empty_db pdf_upload
     = (Inr \<lparr>message = ascii ''Success'', log_id = 1, data = minimal_record\<rparr>,
        \<lparr>rows = [stored_row (ascii ''two.pdf'') [0x25, 0x50, 0x44, 0x46, 0x01, 0x02]],
         next_id = 2, now = 0\<rparr>,
        [PdfConvert, ModelCall, DbInsert])
   \<and> convert_from_bytes (sim_env (ascii ''<minimal>'')) (read pdf_upload)
     = Inr [[0xFF, 0xD8, 0x01], [0xFF, 0xD8, 0x02]]
   \<and> db_ok empty_db
   \<and> (\<exists>r. [stored_row (ascii ''two.pdf'') [0x25, 0x50, 0x44, 0x46, 0x01, 0x02]] = [] @ [r]
        \<and> file_content r = read pdf_upload
        \<and> get_invoice_log_by_id
            \<lparr>rows = [stored_row (ascii ''two.pdf'') [0x25, 0x50, 0x44, 0x46, 0x01, 0x02]],
             next_id = 2, now = 0\<rparr> 1 = Some r)
   \<and> upload_filename pdf_upload = Some (ascii ''two.pdf'') \<and> ascii ''two.pdf'' \<noteq> []
   \<and> content_type pdf_upload = Some (ascii ''application/pdf'')
   \<and> contains (ascii ''application/pdf'') (ascii ''application/pdf'')
   \<and> process_invoice_with_vllm (sim_env (ascii ''<minimal>'')) [0xFF, 0xD8, 0x01]
     = Inr minimal_record
   \<and> (\<exists>r d1. upload_invoice (sim_env (ascii ''<minimal>'')) empty_db pdf_upload
          = (Inr \<lparr>message = ascii ''Success'', log_id = id' r, data = minimal_record\<rparr>, d1,
             [PdfConvert, ModelCall, DbInsert])
        \<and> rows d1 = rows empty_db @ [r] \<and> file_content r = read pdf_upload)"
proof -
  have ok: "db_ok empty_db" by (simp add: db_ok_def empty_db_def)
  have pages: "convert_from_bytes (sim_env (ascii ''<minimal>'')) (read pdf_upload)
      = Inr [[0xFF, 0xD8, 0x01], [0xFF, 0xD8, 0x02]]"
    by (simp add: sim_env_def pdf_upload_def)
  have "\<exists>r. rows \<lparr>rows = [stored_row (ascii ''two.pdf'') [0x25, 0x50, 0x44, 0x46, 0x01, 0x02]],
          next_id = 2, now = 0\<rparr> = rows empty_db @ [r]
      \<and> file_content r = read pdf_upload
      \<and> upload_filename pdf_upload = Some (InvoiceLog.filename r)
      \<and> id' r = log_id \<lparr>message = ascii ''Success'', log_id = 1, data = minimal_record\<rparr>
      \<and> extracted_schema_content r
          = model_dump (data \<lparr>message = ascii ''Success'', log_id = 1, data = minimal_record\<rparr>)
      \<and> (db_ok empty_db \<longrightarrow> get_invoice_log_by_id
            \<lparr>rows = [stored_row (ascii ''two.pdf'') [0x25, 0x50, 0x44, 0x46, 0x01, 0x02]],
             next_id = 2, now = 0\<rparr>
            (log_id \<lparr>message = ascii ''Success'', log_id = 1, data = minimal_record\<rparr>) = Some r)"
    using C7_stored_bytes [of "sim_env (ascii ''<minimal>'')" empty_db pdf_upload
        "\<lparr>message = ascii ''Success'', log_id = 1, data = minimal_record\<rparr>"
        "\<lparr>rows = [stored_row (ascii ''two.pdf'') [0x25, 0x50, 0x44, 0x46, 0x01, 0x02]],
          next_id = 2, now = 0\<rparr>"
        "[PdfConvert, ModelCall, DbInsert]"] sim_upload_pdf
    by blast
  then have "\<exists>r. [stored_row (ascii ''two.pdf'') [0x25, 0x50, 0x44, 0x46, 0x01, 0x02]] = [] @ [r]
      \<and> file_content r = read pdf_upload
      \<and> get_invoice_log_by_id
          \<lparr>rows = [stored_row (ascii ''two.pdf'') [0x25, 0x50, 0x44, 0x46, 0x01, 0x02]],
           next_id = 2, now = 0\<rparr> 1 = Some r"
    using ok by (simp add: empty_db_def)
  moreover have f: "upload_filename pdf_upload = Some (ascii ''two.pdf'')" "ascii ''two.pdf'' \<noteq> []"
    "content_type pdf_upload = Some (ascii ''application/pdf'')"
    "contains (ascii ''application/pdf'') (ascii ''application/pdf'')"
    by (simp_all add: pdf_upload_def ascii_def)
  moreover have "\<exists>r d1. upload_invoice (sim_env (ascii ''<minimal>'')) empty_db pdf_upload
        = (Inr \<lparr>message = ascii ''Success'', log_id = id' r, data = minimal_record\<rparr>, d1,
           [PdfConvert, ModelCall, DbInsert])
      \<and> rows d1 = rows empty_db @ [r] \<and> file_content r = read pdf_upload"
    using C7_stored_bytes [of "sim_env (ascii ''<minimal>'')" empty_db pdf_upload _ _ _
        "ascii ''two.pdf''" "ascii ''application/pdf''" "[0xFF, 0xD8, 0x01]" "[0xFF, 0xD8, 0x02]"
        "[]" minimal_record] f pages sim_process_ok [of "[0xFF, 0xD8, 0x01]"]
    by blast
  ultimately show ?thesis
    using sim_upload_pdf pages ok sim_process_ok [of "[0xFF, 0xD8, 0x01]"] by blast
qed

section \<open>Text that does not parse\<close>



section \<open>The preview\<close>

lemma preview_found:
  assumes "get_invoice_log_by_id d lid = Some row"
  shows "preview_log_image env d lid =
     (case preview_try env (file_content row) of
        (Inr r, evs) \<Rightarrow> (Inr r, evs)
      | (Inl e, evs) \<Rightarrow>
          (Inl (HTTPException 500 (ascii ''Preview generation failed: '' @ str_exn env e)), evs))"
  using assms by (simp add: preview_log_image_def)

lemma preview_try_starts:
  "\<exists>r evs. preview_try env b = (r, ImageOpen # evs)"
  by (auto simp: preview_try_def Let_def split: sum.splits list.splits)

lemma preview_try_fallback:
  assumes "image_open env b = Inl e" and "is_IOError e"
  shows "\<exists>r evs. preview_try env b = (r, ImageOpen # PdfConvert # evs)"
  using assms by (auto simp: preview_try_def Let_def split: sum.splits list.splits)

lemma preview_try_image:
  assumes "image_open env b = Inr img" and "convert_rgb env img = Inr rgb"
    and "save_jpeg env rgb = Inr buf"
  shows "preview_try env b
     = (Inr \<lparr>body = buf, media_type = ascii ''image/jpeg''\<rparr>, [ImageOpen, JpegEncode])"
  using assms by (simp add: preview_try_def)

lemma preview_try_first_page:
  assumes "image_open env b = Inl e" and "is_IOError e"
    and "convert_from_bytes env b = Inr (p1 # ps)"
    and "convert_rgb env p1 = Inr rgb" and "save_jpeg env rgb = Inr buf"
  shows "preview_try env b
     = (Inr \<lparr>body = buf, media_type = ascii ''image/jpeg''\<rparr>,
        [ImageOpen, PdfConvert, JpegEncode])"
  using assms by (simp add: preview_try_def pdf_to_images_def)

lemma preview_try_both_fail:
  assumes "image_open env b = Inl e" and "is_IOError e"
    and "convert_from_bytes env b = Inl e' \<or> convert_from_bytes env b = Inr []"
  shows "preview_try env b
     = (Inl (HTTPException 400 (ascii ''Could not convert file content to image preview.'')),
        [ImageOpen, PdfConvert])"
  using assms by (auto simp: preview_try_def pdf_to_images_def)

lemma preview_try_other_error:
  assumes "image_open env b = Inl e" and "\<not> is_IOError e"
  shows "preview_try env b = (Inl e, [ImageOpen])"
  using assms by (simp add: preview_try_def)

lemma preview_try_success:
  assumes "preview_try env b = (Inr resp, evs)"
  shows "media_type resp = ascii ''image/jpeg''
     \<and> (\<exists>img rgb. convert_rgb env img = Inr rgb \<and> save_jpeg env rgb = Inr (body resp))"
  using assms
  by (auto simp: preview_try_def Let_def split: sum.splits list.splits if_splits; blast)

lemma preview_failure_handled:
  assumes "preview_log_image env d lid = (Inl x, evs)"
  shows "\<exists>c m. x = HTTPException c m"
  using assms
  by (auto simp: preview_log_image_def split: option.splits sum.splits prod.splits)

lemma preview_success:
  assumes "preview_log_image env d lid = (Inr resp, evs)"
  shows "media_type resp = ascii ''image/jpeg''
     \<and> (\<exists>img rgb. convert_rgb env img = Inr rgb \<and> save_jpeg env rgb = Inr (body resp))"
proof -
  from assms obtain row :: InvoiceLog
    where "preview_try env (file_content row) = (Inr resp, evs)"
    by (auto simp: preview_log_image_def split: option.splits sum.splits prod.splits)
  then show ?thesis by (rule preview_try_success)
qed

text \<open>
  Claim C9, as amended. For a stored record the image decoder is called first. When it
  raises an \<open>IOError\<close>, the document renderer is called next; its first page, or the
  decoded image, is converted to RGB and saved as JPEG, and the response has media type
  \<open>image/jpeg\<close>. When the decoder raises an \<open>IOError\<close> and the renderer raises or
  renders no page, the body of the \<open>try\<close> raises the exception of the unavailable preview
  (\<open>HTTPException(400, "Could not convert file content to image preview.")\<close>), which
  the endpoint's handler re-raises as status 500 with the text of that exception. When the
  decoder raises anything else, the renderer is not called and the request fails with
  status 500 and the text of that exception. Every failure of the endpoint is an
  \<open>HTTPException\<close>.
\<close>

theorem C9_preview:
  "(get_invoice_log_by_id d lid = Some row \<longrightarrow>
      (\<exists>r evs. preview_log_image env d lid = (r, ImageOpen # evs))
      \<and> (image_open env (file_content row) = Inl e \<and> is_IOError e \<longrightarrow>
           (\<exists>r evs. preview_log_image env d lid = (r, ImageOpen # PdfConvert # evs)))
      \<and> (image_open env (file_content row) = Inl e \<and> is_IOError e
           \<and> convert_from_bytes env (file_content row) = Inr (p1 # ps)
           \<and> convert_rgb env p1 = Inr rgb \<and> save_jpeg env rgb = Inr buf \<longrightarrow>
           preview_log_image env d lid
             = (Inr \<lparr>body = buf, media_type = ascii ''image/jpeg''\<rparr>,
                [ImageOpen, PdfConvert, JpegEncode]))
      \<and> (image_open env (file_content row) = Inr img
           \<and> convert_rgb env img = Inr rgb \<and> save_jpeg env rgb = Inr buf \<longrightarrow>
           preview_log_image env d lid
             = (Inr \<lparr>body = buf, media_type = ascii ''image/jpeg''\<rparr>, [ImageOpen, JpegEncode]))
      \<and> (image_open env (file_content row) = Inl e \<and> is_IOError e
           \<and> (convert_from_bytes env (file_content row) = Inl e'
               \<or> convert_from_bytes env (file_content row) = Inr []) \<longrightarrow>
           preview_log_image env d lid
             = (Inl (HTTPException 500 (ascii ''Preview generation failed: '' @ str_exn env
                  (HTTPException 400
                     (ascii ''Could not convert file content to image preview.'')))),
                [ImageOpen, PdfConvert]))
      \<and> (image_open env (file_content row) = Inl e \<and> \<not> is_IOError e \<longrightarrow>
           preview_log_image env d lid
             = (Inl (HTTPException 500 (ascii ''Preview generation failed: '' @ str_exn env e)),
                [ImageOpen])))
   \<and> (preview_log_image env d lid = (Inl x, tr) \<longrightarrow> (\<exists>c m. x = HTTPException c m))
   \<and> (preview_log_image env d lid = (Inr resp, tr) \<longrightarrow>
        media_type resp = ascii ''image/jpeg''
        \<and> (\<exists>im rgb'. convert_rgb env im = Inr rgb' \<and> save_jpeg env rgb' = Inr (body resp)))
   \<and> (image_open env b = Inl e \<and> is_IOError e
        \<and> (convert_from_bytes env b = Inl e' \<or> convert_from_bytes env b = Inr []) \<longrightarrow>
        preview_try env b
          = (Inl (HTTPException 400 (ascii ''Could not convert file content to image preview.'')),
             [ImageOpen, PdfConvert]))"
proof (intro conjI impI)
  assume "image_open env b = Inl e \<and> is_IOError e
      \<and> (convert_from_bytes env b = Inl e' \<or> convert_from_bytes env b = Inr [])"
  then show "preview_try env b
      = (Inl (HTTPException 400 (ascii ''Could not convert file content to image preview.'')),
         [ImageOpen, PdfConvert])"
    using preview_try_both_fail [of env b e e'] by blast
next
  assume f: "get_invoice_log_by_id d lid = Some row"
  note pf = preview_found [OF f, of env]
  show "\<exists>r evs. preview_log_image env d lid = (r, ImageOpen # evs)"
    using preview_try_starts [of env "file_content row"]
    by (auto simp: pf split: sum.splits)
  show "\<exists>r evs. preview_log_image env d lid = (r, ImageOpen # PdfConvert # evs)"
    if "image_open env (file_content row) = Inl e \<and> is_IOError e"
    using preview_try_fallback [of env "file_content row" e] that
    by (auto simp: pf split: sum.splits)
  show "preview_log_image env d lid
      = (Inr \<lparr>body = buf, media_type = ascii ''image/jpeg''\<rparr>,
         [ImageOpen, PdfConvert, JpegEncode])"
    if "image_open env (file_content row) = Inl e \<and> is_IOError e
      \<and> convert_from_bytes env (file_content row) = Inr (p1 # ps)
      \<and> convert_rgb env p1 = Inr rgb \<and> save_jpeg env rgb = Inr buf"
    using preview_try_first_page [of env "file_content row" e p1 ps rgb buf] that
    by (simp add: pf)
  show "preview_log_image env d lid
      = (Inr \<lparr>body = buf, media_type = ascii ''image/jpeg''\<rparr>, [ImageOpen, JpegEncode])"
    if "image_open env (file_content row) = Inr img
      \<and> convert_rgb env img = Inr rgb \<and> save_jpeg env rgb = Inr buf"
    using preview_try_image [of env "file_content row" img rgb buf] that
    by (simp add: pf)
  show "preview_log_image env d lid
      = (Inl (HTTPException 500 (ascii ''Preview generation failed: '' @ str_exn env
           (HTTPException 400 (ascii ''Could not convert file content to image preview.'')))),
         [ImageOpen, PdfConvert])"
    if "image_open env (file_content row) = Inl e \<and> is_IOError e
      \<and> (convert_from_bytes env (file_content row) = Inl e'
          \<or> convert_from_bytes env (file_content row) = Inr [])"
    using preview_try_both_fail [of env "file_content row" e e'] that
    by (simp add: pf)
  show "preview_log_image env d lid
      = (Inl (HTTPException 500 (ascii ''Preview generation failed: '' @ str_exn env e)),
         [ImageOpen])"
    if "image_open env (file_content row) = Inl e \<and> \<not> is_IOError e"
    using preview_try_other_error [of env "file_content row" e] that
    by (simp add: pf)
next
  assume "preview_log_image env d lid = (Inl x, tr)"
  then show "\<exists>c m. x = HTTPException c m" by (rule preview_failure_handled)
next
  assume a: "preview_log_image env d lid = (Inr resp, tr)"
  from preview_success [OF a] show "media_type resp = ascii ''image/jpeg''" by simp
  from preview_success [OF a]
  show "\<exists>im rgb'. convert_rgb env im = Inr rgb' \<and> save_jpeg env rgb' = Inr (body resp)"
    by simp
qed

lemma sim_lookup:
  "get_invoice_log_by_id preview_db 1
     = Some (stored_row (ascii ''two.pdf'') [0x25, 0x50, 0x44, 0x46, 0x01, 0x02])"
  "get_invoice_log_by_id preview_db 2
     = Some ((stored_row (ascii ''notes.txt'') [0x68, 0x69])\<lparr>id' := 2\<rparr>)"
  "get_invoice_log_by_id preview_db 3
     = Some ((stored_row (ascii ''big.png'') [0x89, 0x50])\<lparr>id' := 3\<rparr>)"
  "get_invoice_log_by_id preview_db 4
     = Some ((stored_row (ascii ''a.jpg'') [0xFF, 0xD8, 0x01])\<lparr>id' := 4\<rparr>)"
  by (simp_all add: get_invoice_log_by_id_def preview_db_def stored_row_def)

lemma sim_decoders:
  "image_open (sim_env []) [0x25, 0x50, 0x44, 0x46, 0x01, 0x02]
     = Inl (IOError (ascii ''cannot identify image file''))"
  "convert_from_bytes (sim_env []) [0x25, 0x50, 0x44, 0x46, 0x01, 0x02]
     = Inr [[0xFF, 0xD8, 0x01], [0xFF, 0xD8, 0x02]]"
  "image_open (sim_env []) [0x68, 0x69] = Inl (IOError (ascii ''cannot identify image file''))"
  "convert_from_bytes (sim_env []) [0x68, 0x69]
     = Inl (OtherError (ascii ''Unable to get page count.''))"
  "image_open (sim_env []) [0x89, 0x50] = Inl (OtherError (ascii ''decompression bomb''))"
  "convert_rgb (sim_env []) b = Inr b"
  "save_jpeg (sim_env []) b = Inr b"
  "image_open (sim_env []) [0xFF, 0xD8, 0x01] = Inr [0xFF, 0xD8, 0x01]"
  by (simp_all add: sim_env_def)

theorem C9_preview_witness:
  "(get_invoice_log_by_id preview_db 1
      = Some (stored_row (ascii ''two.pdf'') [0x25, 0x50, 0x44, 0x46, 0x01, 0x02])
    \<and> image_open (sim_env []) [0x25, 0x50, 0x44, 0x46, 0x01, 0x02]
      = Inl (IOError (ascii ''cannot identify image file''))
    \<and> is_IOError (IOError (ascii ''cannot identify image file''))
    \<and> convert_from_bytes (sim_env []) [0x25, 0x50, 0x44, 0x46, 0x01, 0x02]
      = Inr [[0xFF, 0xD8, 0x01], [0xFF, 0xD8, 0x02]]
    \<and> preview_log_image (sim_env []) preview_db 1
      = (Inr \<lparr>body = [0xFF, 0xD8, 0x01], media_type = ascii ''image/jpeg''\<rparr>,
         [ImageOpen, PdfConvert, JpegEncode]))
   \<and> (get_invoice_log_by_id preview_db 2
      = Some ((stored_row (ascii ''notes.txt'') [0x68, 0x69])\<lparr>id' := 2\<rparr>)
    \<and> image_open (sim_env []) [0x68, 0x69] = Inl (IOError (ascii ''cannot identify image file''))
    \<and> convert_from_bytes (sim_env []) [0x68, 0x69]
      = Inl (OtherError (ascii ''Unable to get page count.''))
    \<and> preview_log_image (sim_env []) preview_db 2
      = (Inl (HTTPException 500 (ascii
           ''Preview generation failed: Could not convert file content to image preview.'')),
         [ImageOpen, PdfConvert]))
   \<and> (get_invoice_log_by_id preview_db 3
      = Some ((stored_row (ascii ''big.png'') [0x89, 0x50])\<lparr>id' := 3\<rparr>)
    \<and> image_open (sim_env []) [0x89, 0x50] = Inl (OtherError (ascii ''decompression bomb''))
    \<and> \<not> is_IOError (OtherError (ascii ''decompression bomb''))
    \<and> preview_log_image (sim_env []) preview_db 3
      = (Inl (HTTPException 500 (ascii ''Preview generation failed: decompression bomb'')),
         [ImageOpen]))
   \<and> (get_invoice_log_by_id preview_db 4
      = Some ((stored_row (ascii ''a.jpg'') [0xFF, 0xD8, 0x01])\<lparr>id' := 4\<rparr>)
    \<and> image_open (sim_env []) [0xFF, 0xD8, 0x01] = Inr [0xFF, 0xD8, 0x01]
    \<and> preview_log_image (sim_env []) preview_db 4
      = (Inr \<lparr>body = [0xFF, 0xD8, 0x01], media_type = ascii ''image/jpeg''\<rparr>,
         [ImageOpen, JpegEncode]))
   \<and> preview_try (sim_env []) [0x68, 0x69]
     = (Inl (HTTPException 400 (ascii ''Could not convert file content to image preview.'')),
        [ImageOpen, PdfConvert])"
proof -
  have io: "is_IOError (IOError (ascii ''cannot identify image file''))"
    "\<not> is_IOError (OtherError (ascii ''decompression bomb''))"
    by (simp_all add: is_IOError_def)
  have fc: "file_content (stored_row (ascii ''two.pdf'') [0x25, 0x50, 0x44, 0x46, 0x01, 0x02])
      = [0x25, 0x50, 0x44, 0x46, 0x01, 0x02]"
    "file_content ((stored_row (ascii ''notes.txt'') [0x68, 0x69])\<lparr>id' := 2\<rparr>) = [0x68, 0x69]"
    "file_content ((stored_row (ascii ''big.png'') [0x89, 0x50])\<lparr>id' := 3\<rparr>) = [0x89, 0x50]"
    "file_content ((stored_row (ascii ''a.jpg'') [0xFF, 0xD8, 0x01])\<lparr>id' := 4\<rparr>)
      = [0xFF, 0xD8, 0x01]"
    by (simp_all add: stored_row_def)
  have s2: "ascii ''Preview generation failed: '' @ str_exn (sim_env [])
        (HTTPException 400 (ascii ''Could not convert file content to image preview.''))
      = ascii ''Preview generation failed: Could not convert file content to image preview.''"
    by (simp add: str_exn_def sim_env_def ascii_def)
  have s3: "ascii ''Preview generation failed: '' @ str_exn (sim_env [])
        (OtherError (ascii ''decompression bomb''))
      = ascii ''Preview generation failed: decompression bomb''"
    by (simp add: str_exn_def sim_env_def ascii_def)
  have p1: "preview_log_image (sim_env []) preview_db 1
      = (Inr \<lparr>body = [0xFF, 0xD8, 0x01], media_type = ascii ''image/jpeg''\<rparr>,
         [ImageOpen, PdfConvert, JpegEncode])"
    using C9_preview [of preview_db 1
        "stored_row (ascii ''two.pdf'') [0x25, 0x50, 0x44, 0x46, 0x01, 0x02]" "sim_env []"
        "IOError (ascii ''cannot identify image file'')" "[0xFF, 0xD8, 0x01]"
        "[[0xFF, 0xD8, 0x02]]" "[0xFF, 0xD8, 0x01]" "[0xFF, 0xD8, 0x01]" "[]" "IOError []"
        "IOError []" "[]" "\<lparr>body = [], media_type = []\<rparr>" "[]"]
      sim_lookup(1) sim_decoders io(1)
    unfolding fc by blast
  have p2: "preview_log_image (sim_env []) preview_db 2
      = (Inl (HTTPException 500 (ascii
           ''Preview generation failed: Could not convert file content to image preview.'')),
         [ImageOpen, PdfConvert])"
    using C9_preview [of preview_db 2 "(stored_row (ascii ''notes.txt'') [0x68, 0x69])\<lparr>id' := 2\<rparr>"
        "sim_env []" "IOError (ascii ''cannot identify image file'')" "[]" "[]" "[]" "[]" "[]"
        "OtherError (ascii ''Unable to get page count.'')" "IOError []" "[]" "\<lparr>body = [], media_type = []\<rparr>" "[]"]
      sim_lookup(2) sim_decoders io(1)
    unfolding fc s2 by blast
  have p3: "preview_log_image (sim_env []) preview_db 3
      = (Inl (HTTPException 500 (ascii ''Preview generation failed: decompression bomb'')),
         [ImageOpen])"
    using C9_preview [of preview_db 3 "(stored_row (ascii ''big.png'') [0x89, 0x50])\<lparr>id' := 3\<rparr>"
        "sim_env []" "OtherError (ascii ''decompression bomb'')" "[]" "[]" "[]" "[]" "[]"
        "IOError []" "IOError []" "[]" "\<lparr>body = [], media_type = []\<rparr>" "[]"]
      sim_lookup(3) sim_decoders io(2)
    unfolding fc s3 by blast
  have p4: "preview_log_image (sim_env []) preview_db 4
      = (Inr \<lparr>body = [0xFF, 0xD8, 0x01], media_type = ascii ''image/jpeg''\<rparr>,
         [ImageOpen, JpegEncode])"
    using C9_preview [of preview_db 4 "(stored_row (ascii ''a.jpg'') [0xFF, 0xD8, 0x01])\<lparr>id' := 4\<rparr>"
        "sim_env []" "IOError []" "[]" "[]" "[0xFF, 0xD8, 0x01]" "[0xFF, 0xD8, 0x01]"
        "[0xFF, 0xD8, 0x01]" "IOError []" "IOError []" "[]" "\<lparr>body = [], media_type = []\<rparr>" "[]"]
      sim_lookup(4) sim_decoders
    unfolding fc by blast
  have p5: "preview_try (sim_env []) [0x68, 0x69]
      = (Inl (HTTPException 400 (ascii ''Could not convert file content to image preview.'')),
         [ImageOpen, PdfConvert])"
    using C9_preview [of preview_db 2 "(stored_row (ascii ''notes.txt'') [0x68, 0x69])\<lparr>id' := 2\<rparr>"
        "sim_env []" "IOError (ascii ''cannot identify image file'')" "[]" "[]" "[]" "[]" "[]"
        "OtherError (ascii ''Unable to get page count.'')" "IOError []" "[]"
        "\<lparr>body = [], media_type = []\<rparr>" "[0x68, 0x69]"]
      sim_decoders(3,4) io(1)
    by blast
  from p1 p2 p3 p4 p5 sim_lookup sim_decoders(1-5) sim_decoders(8) io show ?thesis by blast
qed

text \<open>
  The claim as written fails here: the decoder fails on the stored bytes, and the
  renderer is never called.
\<close>

theorem C9_no_fallback_counterexample:
  "get_invoice_log_by_id preview_db 3
     = Some ((stored_row (ascii ''big.png'') [0x89, 0x50])\<lparr>id' := 3\<rparr>)
   \<and> image_open (sim_env []) [0x89, 0x50] = Inl (OtherError (ascii ''decompression bomb''))
   \<and> preview_log_image (sim_env []) preview_db 3
     = (Inl (HTTPException 500 (ascii ''Preview generation failed: decompression bomb'')),
        [ImageOpen])
   \<and> PdfConvert \<notin> set [ImageOpen]"
proof -
  have fc: "file_content ((stored_row (ascii ''big.png'') [0x89, 0x50])\<lparr>id' := 3\<rparr>) = [0x89, 0x50]"
    by (simp add: stored_row_def)
  have s3: "ascii ''Preview generation failed: '' @ str_exn (sim_env [])
        (OtherError (ascii ''decompression bomb''))
      = ascii ''Preview generation failed: decompression bomb''"
    by (simp add: str_exn_def sim_env_def ascii_def)
  have "preview_try (sim_env []) [0x89, 0x50]
      = (Inl (OtherError (ascii ''decompression bomb'')), [ImageOpen])"
    by (simp add: preview_try_def sim_decoders is_IOError_def)
  then have "preview_log_image (sim_env []) preview_db 3
      = (Inl (HTTPException 500 (ascii ''Preview generation failed: decompression bomb'')),
         [ImageOpen])"
    using preview_found [OF sim_lookup(3), of "sim_env []"] by (simp add: fc s3)
  with sim_lookup(3) sim_decoders(5) show ?thesis by simp
qed

section \<open>Search by identity\<close>

lemma numeric_ascii_digit: "48 \<le> c \<Longrightarrow> c \<le> 57 \<Longrightarrow> numeric env c = Decimal (c - 48)"
  by (simp add: numeric_def)

lemma decimal_not_NotDigit: "decimal env c \<Longrightarrow> numeric env c \<noteq> NotDigit"
  by (simp add: decimal_def split: numeric_type.splits)

lemma isdecimal_isdigit: "isdecimal env q \<Longrightarrow> isdigit env q"
  by (auto simp: isdecimal_def isdigit_def list_all_iff decimal_not_NotDigit)

lemma no_digit_not_isdigit:
  "list_ex (\<lambda>c. numeric env c = NotDigit) q \<Longrightarrow> q \<noteq> [] \<and> \<not> isdigit env q"
  by (auto simp: isdigit_def list_ex_iff list_all_iff)

text \<open>
  A text that is not a string of decimal digits is empty, or has a character that is no
  digit, or is made of digit characters of which one is not decimal.
\<close>

lemma not_decimal_cases:
  "\<not> isdecimal env q \<longleftrightarrow>
     q = [] \<or> list_ex (\<lambda>c. numeric env c = NotDigit) q \<or> (isdigit env q \<and> \<not> isdecimal env q)"
proof -
  have "\<not> (isdecimal env q \<and> list_ex (\<lambda>c. numeric env c = NotDigit) q)"
    using decimal_not_NotDigit [of env] by (auto simp: isdecimal_def list_ex_iff list_all_iff)
  moreover have "q = [] \<longrightarrow> \<not> isdecimal env q" by (simp add: isdecimal_def)
  moreover have "\<not> isdigit env q \<longrightarrow> q = [] \<or> list_ex (\<lambda>c. numeric env c = NotDigit) q"
    by (auto simp: isdigit_def list_ex_iff list_all_iff)
  ultimately show ?thesis by blast
qed

text \<open>\<open>int\<close> on a string of decimal digits within the interpreter's limit, and beyond it.\<close>

lemma int_digits_decimal:
  "list_all (decimal env) s \<Longrightarrow>
   int_digits env acc s
     = Some (foldl (\<lambda>a c. 10 * a + (case numeric env c of Decimal v \<Rightarrow> int v | _ \<Rightarrow> 0)) acc s)"
  by (induction s arbitrary: acc) (auto simp: decimal_def split: numeric_type.splits)

lemma takeWhile_all: "list_all P s \<Longrightarrow> takeWhile P s = s"
  by (simp add: list_all_iff)

lemma int_py_decimal:
  assumes "isdecimal env q"
    and "length q \<le> 640 \<or> int_max_str_digits env = 0 \<or> length q \<le> int_max_str_digits env"
  shows "int_py env q = Inr (decimal_value env q)"
proof -
  from assms(1) have ne: "q \<noteq> []" and all: "list_all (decimal env) q"
    by (simp_all add: isdecimal_def)
  from all have tw: "takeWhile (decimal env) q = q" by (rule takeWhile_all)
  from assms(2) have lim: "\<not> (640 < length q \<and> 0 < int_max_str_digits env
      \<and> int_max_str_digits env < length q)" by auto
  have "int_py env q
      = (case (if q = [] then None else int_digits env 0 q) of
           None \<Rightarrow>
             Inl (ValueError
               (ascii ''invalid literal for int() with base 10: '' @ take 200 (repr env q)))
         | Some n \<Rightarrow> Inr n)"
    unfolding int_py_def Let_def tw using lim by (simp only: if_False)
  with ne show ?thesis
    by (simp add: decimal_value_def int_digits_decimal [OF all])
qed

lemma int_py_over_limit:
  assumes "list_all (decimal env) q"
    and "640 < length q" and "0 < int_max_str_digits env" and "int_max_str_digits env < length q"
  shows "int_py env q = Inl (ValueError
     (ascii ''Exceeds the limit ('' @ str_nat (int_max_str_digits env)
      @ ascii '' digits) for integer string conversion: value has ''
      @ str_nat (length q)
      @ ascii '' digits; use sys.set_int_max_str_digits() to increase the limit''))"
proof -
  from assms(1) have tw: "takeWhile (decimal env) q = q" by (rule takeWhile_all)
  show ?thesis
    unfolding int_py_def Let_def tw using assms(2-4) by (simp only: simp_thms if_True)
qed

text \<open>
  A statement whose offset and limit are not negative and whose integer parameters fit
  four bytes is executed: the matching rows, from the offset on, at most the limit.
\<close>

lemma execute_page:
  assumes "0 \<le> skip" and "int32 skip" and "0 \<le> limit" and "int32 limit"
    and "case w of Some (IdEquals n) \<Rightarrow> int32 n | _ \<Rightarrow> True"
  shows "execute env d \<lparr>whereclause = w, offset_clause = Some skip, limit_clause = Some limit\<rparr>
     = Inr (map select_meta (take (nat limit) (drop (nat skip)
         (filter (matches env w) (order_by_created_at_desc (rows d))))))"
  using assms
  by (auto simp: execute_def bind_parameters_def Let_def
      split: option.splits criterion.splits)

lemma no_row_minus_one:
  assumes "db_ok d"
  shows "filter (\<lambda>r. id' r = - 1) (order_by_created_at_desc (rows d)) = []"
proof -
  from assms have "\<forall>r \<in> set (rows d). id' r \<noteq> - 1"
    by (auto simp: db_ok_def list_all_iff)
  then show ?thesis by (simp add: order_by_created_at_desc_def filter_empty_conv)
qed

lemma matches_simps:
  "matches env None = (\<lambda>r. True)"
  "matches env (Some (IdEquals n)) = (\<lambda>r. id' r = n)"
  by (simp_all add: matches_def fun_eq_iff)

lemma int32_minus_one: "int32 (- 1)"
  by (simp add: int32_def)

text \<open>The three cases of a search by identity that the code answers.\<close>

lemma search_no_digit:
  assumes "list_ex (\<lambda>c. numeric env c = NotDigit) q" and "db_ok d"
    and "0 \<le> skip" and "int32 skip" and "0 \<le> limit" and "int32 limit"
  shows "get_invoice_logs_metadata env d skip limit (Some q) (Some (ascii ''id'')) = Inr []"
proof -
  from assms(1) have q: "q \<noteq> []" "\<not> isdigit env q" using no_digit_not_isdigit by blast+
  have "execute env d
      \<lparr>whereclause = Some (IdEquals (- 1)), offset_clause = Some skip, limit_clause = Some limit\<rparr>
    = Inr []"
    using execute_page [OF assms(3-6), of "Some (IdEquals (- 1))" env d]
    by (simp add: int32_minus_one matches_simps no_row_minus_one [OF assms(2)])
  with q show ?thesis
    by (simp add: get_invoice_logs_metadata_def select_logs_def)
qed

lemma search_decimal:
  assumes "isdecimal env q"
    and "length q \<le> 640 \<or> int_max_str_digits env = 0 \<or> length q \<le> int_max_str_digits env"
    and "int32 (decimal_value env q)"
    and "0 \<le> skip" and "int32 skip" and "0 \<le> limit" and "int32 limit"
  shows "get_invoice_logs_metadata env d skip limit (Some q) (Some (ascii ''id''))
     = Inr (map select_meta (take (nat limit) (drop (nat skip)
         (filter (\<lambda>r. id' r = decimal_value env q) (order_by_created_at_desc (rows d))))))"
proof -
  from assms(1) have q: "q \<noteq> []" "isdigit env q"
    by (simp_all add: isdecimal_isdigit) (simp add: isdecimal_def)
  have "execute env d
      \<lparr>whereclause = Some (IdEquals (decimal_value env q)), offset_clause = Some skip,
       limit_clause = Some limit\<rparr>
    = Inr (map select_meta (take (nat limit) (drop (nat skip)
         (filter (\<lambda>r. id' r = decimal_value env q) (order_by_created_at_desc (rows d))))))"
    using execute_page [OF assms(4-7), of "Some (IdEquals (decimal_value env q))" env d] assms(3)
    by (simp add: matches_simps)
  with q show ?thesis
    by (simp add: get_invoice_logs_metadata_def select_logs_def int_py_decimal [OF assms(1,2)])
qed

lemma search_empty:
  assumes "0 \<le> skip" and "int32 skip" and "0 \<le> limit" and "int32 limit"
  shows "get_invoice_logs_metadata env d skip limit (Some []) t
     = Inr (map select_meta (take (nat limit) (drop (nat skip)
         (order_by_created_at_desc (rows d)))))"
  using execute_page [OF assms, of None env d]
  by (simp add: get_invoice_logs_metadata_def select_logs_def matches_simps)

text \<open>The table keeps its invariant under the one operation that writes to it.\<close>

lemma create_keeps_db_ok:
  assumes "db_ok d"
  shows "db_ok (snd (create_invoice_log d fname b x))"
  using assms by (auto simp: db_ok_def create_invoice_log_def Let_def list_all_iff)

text \<open>Searches in the simulated environment, on the table of four rows.\<close>

lemma sim_numeric:
  "numeric (sim_env r) 97 = NotDigit" "numeric (sim_env r) 98 = NotDigit"
  "numeric (sim_env r) 99 = NotDigit" "numeric (sim_env r) 178 = Digit"
  "numeric (sim_env r) 48 = Decimal 0" "numeric (sim_env r) 49 = Decimal 1"
  "numeric (sim_env r) 50 = Decimal 2" "numeric (sim_env r) 51 = Decimal 3"
  "numeric (sim_env r) 52 = Decimal 4" "numeric (sim_env r) 54 = Decimal 6"
  "numeric (sim_env r) 55 = Decimal 7" "numeric (sim_env r) 56 = Decimal 8"
  by (simp_all add: numeric_def sim_env_def)

lemma sim_text_facts:
  "ascii ''abc'' \<noteq> []" "\<not> isdecimal (sim_env []) (ascii ''abc'')"
  "list_ex (\<lambda>c. numeric (sim_env []) c = NotDigit) (ascii ''abc'')"
  "isdecimal (sim_env []) (ascii ''2'')" "length (ascii ''2'') \<le> 640"
  "decimal_value (sim_env []) (ascii ''2'') = 2"
  "\<not> isdecimal (sim_env []) []" "\<not> isdecimal (sim_env []) [178]" "isdigit (sim_env []) [178]"
  "isdecimal (sim_env []) (ascii ''2147483648'')"
  "decimal_value (sim_env []) (ascii ''2147483648'') = 2147483648"
  by (simp_all add: isdecimal_def isdigit_def decimal_def decimal_value_def ascii_def sim_numeric)

lemma sim_table_facts:
  "db_ok preview_db" "(0::int) \<le> 0" "int32 0" "(0::int) \<le> 10" "int32 10" "(0::int) \<le> 1"
  "int32 1" "int32 2" "int32 (- 1)" "\<not> int32 2147483648"
  by (simp_all add: db_ok_def preview_db_def stored_row_def int32_def)

lemma sim_pages:
  "map select_meta (take (nat 10) (drop (nat 0)
      (filter (\<lambda>r. id' r = 2) (order_by_created_at_desc (rows preview_db)))))
   = [select_meta ((stored_row (ascii ''notes.txt'') [0x68, 0x69])\<lparr>id' := 2\<rparr>)]"
  "map select_meta (take (nat 1) (drop (nat 0) (order_by_created_at_desc (rows preview_db))))
   = [select_meta (stored_row (ascii ''two.pdf'') [0x25, 0x50, 0x44, 0x46, 0x01, 0x02])]"
  by (simp_all add: order_by_created_at_desc_def preview_db_def stored_row_def)

lemma str_nat_values: "str_nat 4300 = ascii ''4300''" "str_nat 4301 = ascii ''4301''"
  by (simp_all add: str_nat.simps [of 4300] str_nat.simps [of 4301] str_nat.simps [of 430]
      str_nat.simps [of 43] str_nat.simps [of 4] ascii_def)

lemma isdecimal_replicate: "0 < n \<Longrightarrow> decimal env c \<Longrightarrow> isdecimal env (replicate n c)"
  by (simp add: isdecimal_def list_all_iff)

lemma sim_long_text: "isdecimal (sim_env []) (replicate 4301 49)"
  by (rule isdecimal_replicate) (simp_all add: decimal_def sim_numeric)

lemma sim_limit: "int_max_str_digits (sim_env r) = 4300" "repr (sim_env r) s = [39] @ s @ [39]"
  by (simp_all add: sim_env_def)

text \<open>
  A digit that is not decimal passes \<open>isdigit\<close>, and \<open>int\<close> raises on it, where the comment
  in the source reads \<open>Only filter by ID if query is a valid integer\<close>.
\<close>

lemma superscript_two_raises:
  "get_invoice_logs_metadata (sim_env []) preview_db 0 10 (Some [178]) (Some (ascii ''id''))
     = Inl (ValueError (ascii ''invalid literal for int() with base 10: '' @ [39, 178, 39]))"
proof -
  have "int_py (sim_env []) [178]
      = Inl (ValueError (ascii ''invalid literal for int() with base 10: '' @ [39, 178, 39]))"
    by (simp add: int_py_def Let_def decimal_def sim_numeric sim_limit)
  with sim_text_facts(9) show ?thesis
    by (simp add: get_invoice_logs_metadata_def Let_def)
qed

text \<open>
  Nothing in the source checks the offset, the limit, the size of the number or the
  length of the text: the server refuses a negative offset, the driver a number outside
  the column's type, the interpreter a text of more digits than its limit.
\<close>

lemma negative_offset_raises:
  "get_invoice_logs_metadata (sim_env []) preview_db (- 1) 10 (Some (ascii ''abc''))
     (Some (ascii ''id'')) = Inl (DBAPIError NegativeOffset)"
proof -
  from sim_text_facts(3) have "\<not> isdigit (sim_env []) (ascii ''abc'')"
    using no_digit_not_isdigit by blast
  with sim_text_facts(1) show ?thesis
    by (simp add: get_invoice_logs_metadata_def Let_def select_logs_def execute_def
        bind_parameters_def int32_def)
qed

lemma identity_out_of_range_raises:
  "get_invoice_logs_metadata (sim_env []) preview_db 0 10 (Some (ascii ''2147483648''))
     (Some (ascii ''id'')) = Inl (DBAPIError (OutOfInt32 2147483648))"
proof -
  have ne: "ascii ''2147483648'' \<noteq> []" by (simp add: ascii_def)
  have "length (ascii ''2147483648'') \<le> 640" by (simp add: ascii_def)
  then have "int_py (sim_env []) (ascii ''2147483648'') = Inr 2147483648"
    using int_py_decimal [OF sim_text_facts(10), of ] by (simp add: sim_text_facts(11))
  with ne isdecimal_isdigit [OF sim_text_facts(10)] show ?thesis
    by (simp add: get_invoice_logs_metadata_def Let_def select_logs_def execute_def
        bind_parameters_def int32_def)
qed

lemma search_over_limit:
  assumes "isdecimal env q"
    and "640 < length q" and "0 < int_max_str_digits env" and "int_max_str_digits env < length q"
  shows "get_invoice_logs_metadata env d skip limit (Some q) (Some (ascii ''id''))
     = Inl (ValueError
         (ascii ''Exceeds the limit ('' @ str_nat (int_max_str_digits env)
          @ ascii '' digits) for integer string conversion: value has ''
          @ str_nat (length q)
          @ ascii '' digits; use sys.set_int_max_str_digits() to increase the limit''))"
proof -
  from assms(1) have q: "q \<noteq> []" "isdigit env q" "list_all (decimal env) q"
    by (simp_all add: isdecimal_isdigit) (simp_all add: isdecimal_def)
  from q(1,2) show ?thesis
    by (simp add: get_invoice_logs_metadata_def Let_def int_py_over_limit [OF q(3) assms(2-4)])
qed

lemma long_text_raises:
  "get_invoice_logs_metadata (sim_env []) preview_db 0 10 (Some (replicate 4301 49))
     (Some (ascii ''id''))
   = Inl (ValueError (ascii (''Exceeds the limit (4300 digits) for integer string conversion: ''
       @ ''value has 4301 digits; use sys.set_int_max_str_digits() to increase the limit'')))"
proof -
  have len: "length (replicate 4301 (49::nat)) = 4301" by (rule length_replicate)
  have "get_invoice_logs_metadata (sim_env []) preview_db 0 10 (Some (replicate 4301 49))
     (Some (ascii ''id''))
     = Inl (ValueError
         (ascii ''Exceeds the limit ('' @ ascii ''4300''
          @ ascii '' digits) for integer string conversion: value has ''
          @ ascii ''4301''
          @ ascii '' digits; use sys.set_int_max_str_digits() to increase the limit''))"
    using search_over_limit [OF sim_long_text, of preview_db 0 10]
    by (simp only: len sim_limit str_nat_values)
  then show ?thesis by (simp add: ascii_def)
qed

text \<open>
  Claim C5, as amended. Under search mode \<open>id\<close>, with an offset and a limit that are not
  negative and fit the \<open>INTEGER\<close> type, on a table whose identities came from the sequence:
  a search text that is not empty, is not a string of decimal digits and has a character
  that is no digit gives the empty result, not an exception. A search text that is a
  string of decimal digits, within the interpreter's limit on the digits of an integer
  string and denoting a number that fits the \<open>INTEGER\<close> type of the identity column,
  gives the rows whose identity is that number, most recent first, from \<open>skip\<close> on and at
  most \<open>limit\<close> of them. The empty search text applies no filter.
\<close>

theorem C5_search_by_id:
  "(q \<noteq> [] \<and> \<not> isdecimal env q \<and> list_ex (\<lambda>c. numeric env c = NotDigit) q
      \<and> db_ok d \<and> 0 \<le> skip \<and> int32 skip \<and> 0 \<le> limit \<and> int32 limit
      \<longrightarrow> get_invoice_logs_metadata env d skip limit (Some q) (Some (ascii ''id'')) = Inr [])
   \<and> (isdecimal env q
      \<and> (length q \<le> 640 \<or> int_max_str_digits env = 0 \<or> length q \<le> int_max_str_digits env)
      \<and> int32 (decimal_value env q)
      \<and> 0 \<le> skip \<and> int32 skip \<and> 0 \<le> limit \<and> int32 limit
      \<longrightarrow> get_invoice_logs_metadata env d skip limit (Some q) (Some (ascii ''id''))
          = Inr (map select_meta (take (nat limit) (drop (nat skip)
              (filter (\<lambda>r. id' r = decimal_value env q)
                (order_by_created_at_desc (rows d)))))))
   \<and> (0 \<le> skip \<and> int32 skip \<and> 0 \<le> limit \<and> int32 limit
      \<longrightarrow> get_invoice_logs_metadata env d skip limit (Some []) (Some (ascii ''id''))
          = Inr (map select_meta (take (nat limit) (drop (nat skip)
              (order_by_created_at_desc (rows d))))))"
  using search_no_digit [of env q d skip limit] search_decimal [of env q skip limit d]
    search_empty [of skip limit env d "Some (ascii ''id'')"]
  by blast

theorem C5_search_by_id_witness:
  "(ascii ''abc'' \<noteq> [] \<and> \<not> isdecimal (sim_env []) (ascii ''abc'')
      \<and> list_ex (\<lambda>c. numeric (sim_env []) c = NotDigit) (ascii ''abc'')
      \<and> db_ok preview_db \<and> (0::int) \<le> 0 \<and> int32 0 \<and> (0::int) \<le> 10 \<and> int32 10
      \<and> get_invoice_logs_metadata (sim_env []) preview_db 0 10 (Some (ascii ''abc''))
          (Some (ascii ''id'')) = Inr [])
   \<and> (isdecimal (sim_env []) (ascii ''2'')
      \<and> length (ascii ''2'') \<le> 640
      \<and> int32 (decimal_value (sim_env []) (ascii ''2''))
      \<and> get_invoice_logs_metadata (sim_env []) preview_db 0 10 (Some (ascii ''2''))
          (Some (ascii ''id''))
        = Inr [select_meta ((stored_row (ascii ''notes.txt'') [0x68, 0x69])\<lparr>id' := 2\<rparr>)])
   \<and> ((0::int) \<le> 1 \<and> int32 1
      \<and> get_invoice_logs_metadata (sim_env []) preview_db 0 1 (Some []) (Some (ascii ''id''))
        = Inr [select_meta (stored_row (ascii ''two.pdf'') [0x25, 0x50, 0x44, 0x46, 0x01, 0x02])])"
proof -
  have p1: "get_invoice_logs_metadata (sim_env []) preview_db 0 10 (Some (ascii ''abc''))
      (Some (ascii ''id'')) = Inr []"
    using C5_search_by_id [of "ascii ''abc''" "sim_env []" preview_db 0 10]
      sim_text_facts(1-3) sim_table_facts(1-5)
    by blast
  have "get_invoice_logs_metadata (sim_env []) preview_db 0 10 (Some (ascii ''2''))
      (Some (ascii ''id''))
    = Inr (map select_meta (take (nat 10) (drop (nat 0)
        (filter (\<lambda>r. id' r = decimal_value (sim_env []) (ascii ''2''))
          (order_by_created_at_desc (rows preview_db))))))"
    using C5_search_by_id [of "ascii ''2''" "sim_env []" preview_db 0 10]
      sim_text_facts(4-6) sim_table_facts(2-5,8)
    by (simp only: simp_thms)
  then have p2: "get_invoice_logs_metadata (sim_env []) preview_db 0 10 (Some (ascii ''2''))
      (Some (ascii ''id''))
    = Inr [select_meta ((stored_row (ascii ''notes.txt'') [0x68, 0x69])\<lparr>id' := 2\<rparr>)]"
    by (simp only: sim_text_facts(6) sim_pages(1))
  have "get_invoice_logs_metadata (sim_env []) preview_db 0 1 (Some []) (Some (ascii ''id''))
    = Inr (map select_meta (take (nat 1) (drop (nat 0)
        (order_by_created_at_desc (rows preview_db)))))"
    using C5_search_by_id [of "ascii ''abc''" "sim_env []" preview_db 0 1]
      sim_table_facts(2,3,6,7)
    by blast
  then have p3: "get_invoice_logs_metadata (sim_env []) preview_db 0 1 (Some [])
      (Some (ascii ''id''))
    = Inr [select_meta (stored_row (ascii ''two.pdf'') [0x25, 0x50, 0x44, 0x46, 0x01, 0x02])]"
    by (simp only: sim_pages(2))
  from p1 p2 p3 sim_text_facts(1-6) sim_table_facts show ?thesis
    by (simp only: simp_thms)
qed

text \<open>
  The claim as written fails on five inputs. The empty search text is not a string of
  decimal digits, and the code applies no filter at all under \<open>if search_query\<close>, so the
  listing is returned. A negative offset, a string of decimal digits that denotes a
  number outside the column's type, and a string of more decimal digits than the
  interpreter's limit each raise. A superscript two is not a string of decimal digits and
  raises too: the case the amended claim leaves out.
\<close>

theorem C5_search_counterexample:
  "(\<not> isdecimal (sim_env []) []
      \<and> get_invoice_logs_metadata (sim_env []) preview_db 0 1 (Some []) (Some (ascii ''id''))
        = Inr [select_meta (stored_row (ascii ''two.pdf'') [0x25, 0x50, 0x44, 0x46, 0x01, 0x02])])
   \<and> (\<not> isdecimal (sim_env []) (ascii ''abc'')
      \<and> get_invoice_logs_metadata (sim_env []) preview_db (- 1) 10 (Some (ascii ''abc''))
          (Some (ascii ''id'')) = Inl (DBAPIError NegativeOffset))
   \<and> (isdecimal (sim_env []) (ascii ''2147483648'')
      \<and> get_invoice_logs_metadata (sim_env []) preview_db 0 10 (Some (ascii ''2147483648''))
          (Some (ascii ''id'')) = Inl (DBAPIError (OutOfInt32 2147483648)))
   \<and> (isdecimal (sim_env []) (replicate 4301 49)
      \<and> get_invoice_logs_metadata (sim_env []) preview_db 0 10 (Some (replicate 4301 49))
          (Some (ascii ''id''))
        = Inl (ValueError
            (ascii (''Exceeds the limit (4300 digits) for integer string conversion: ''
              @ ''value has 4301 digits; use sys.set_int_max_str_digits() to increase the limit''))))
   \<and> (\<not> isdecimal (sim_env []) [178]
      \<and> get_invoice_logs_metadata (sim_env []) preview_db 0 10 (Some [178]) (Some (ascii ''id''))
        = Inl (ValueError (ascii ''invalid literal for int() with base 10: '' @ [39, 178, 39])))"
proof -
  have "get_invoice_logs_metadata (sim_env []) preview_db 0 1 (Some []) (Some (ascii ''id''))
      = Inr [select_meta (stored_row (ascii ''two.pdf'') [0x25, 0x50, 0x44, 0x46, 0x01, 0x02])]"
    using search_empty [OF sim_table_facts(2,3,6,7), of "sim_env []" preview_db]
    by (simp only: sim_pages(2))
  with sim_text_facts(2,7,8,10) sim_long_text negative_offset_raises
    identity_out_of_range_raises long_text_raises superscript_two_raises
  show ?thesis by (simp only: simp_thms)
qed

end
